theory Spec2Isabelle
  imports Main "HOL-Library.Multiset"
begin

section \<open>Data model of \<open>preprocess.py\<close>\<close>

text \<open>
  Byte payloads and text are both lists of 8-bit characters.
\<close>

type_synonym bytes = string

text \<open>
  Exceptions that \<open>process_file\<close> can meet.  \<open>KeyError\<close>, \<open>AttributeError\<close>, \<open>TypeError\<close> and
  \<open>ValueError\<close> are raised by the table operations written in the source,
  \<open>UnicodeEncodeError\<close> by \<open>print\<close> on a line that standard output cannot encode;
  \<open>LibraryError\<close> stands for whatever \<open>requests\<close>, \<open>gzip\<close> or \<open>read_csv\<close> raise, with its
  message.  All of them are subclasses of \<open>Exception\<close>.
\<close>

datatype exn =
    KeyError string
  | AttributeError string
  | TypeError string
  | ValueError string
  | UnicodeEncodeError string
  | LibraryError string

text \<open>The text of \<open>str(e)\<close>; a \<open>KeyError\<close> prints its key in quotes.\<close>

fun exn_str :: "exn \<Rightarrow> string" where
  "exn_str (KeyError k) = [CHR 0x27] @ k @ [CHR 0x27]"
| "exn_str (AttributeError m) = m"
| "exn_str (TypeError m) = m"
| "exn_str (ValueError m) = m"
| "exn_str (UnicodeEncodeError m) = m"
| "exn_str (LibraryError m) = m"

text \<open>
  A table cell: a string, a non-string scalar (a number, kept as the text it was parsed from),
  or the missing value.
\<close>

datatype cell = Str string | Num string | NaN

text \<open>
  What \<open>pd.read_csv\<close> returns: column labels and rows, the rows numbered \<open>0, 1, 2, ...\<close>
  (the default index).  A row shorter than the header reads as padded with \<open>NaN\<close>.
\<close>

record table =
  columns :: "string list"
  rows :: "cell list list"

text \<open>A data frame keeps, with every row, the index label it was read under.\<close>

record dataframe =
  df_columns :: "string list"
  df_rows :: "(nat \<times> cell list) list"

record series =
  sname :: string
  sitems :: "(nat \<times> cell) list"

text \<open>
  The collaborators of \<open>process_file\<close>: the HTTP GET with \<open>raise_for_status\<close> and
  \<open>response.content\<close>, the gzip decoder, \<open>pd.read_csv(..., sep='\t', comment='#')\<close>, and
  standard output, which takes a line or cannot encode it.
\<close>

record env =
  fetch :: "string \<Rightarrow> exn + bytes"
  gunzip :: "bytes \<Rightarrow> exn + bytes"
  read_csv :: "bytes \<Rightarrow> exn + table"
  stdout_accepts :: "string \<Rightarrow> bool"

text \<open>
  The five components returned by \<open>process_file\<close>, each \<open>None\<close> or a value:
  \<open>(tpm_series, fpkm_series, fpkm_uq_series, gene_ids, gene_names)\<close>.
\<close>

type_synonym outcome =
  "series option \<times> series option \<times> series option \<times> cell list option \<times> cell list option"

definition no_result :: outcome where
  "no_result = (None, None, None, None, None)"

section \<open>Table operations used by \<open>process_file\<close>\<close>

definition frame_of_table :: "table \<Rightarrow> dataframe" where
  "frame_of_table t = \<lparr>df_columns = columns t, df_rows = enumerate 0 (rows t)\<rparr>"

definition index_of :: "string \<Rightarrow> string list \<Rightarrow> nat" where
  "index_of c cs = length (takeWhile (\<lambda>x. x \<noteq> c) cs)"

definition cell_at :: "cell list \<Rightarrow> nat \<Rightarrow> cell" where
  "cell_at r j = (if j < length r then r ! j else NaN)"

text \<open>
  \<open>df[c]\<close>: a missing label raises \<open>KeyError\<close>.  A label that occurs more than once selects a
  frame, not a series, and every use the source makes of the selection then raises.
\<close>

definition getitem :: "dataframe \<Rightarrow> string \<Rightarrow> exn + (nat \<times> cell) list" where
  "getitem df c =
     (if c \<notin> set (df_columns df) then Inl (KeyError c)
      else if count_list (df_columns df) c \<noteq> 1
        then Inl (AttributeError ''DataFrame object is not a Series'')
      else Inr (map (\<lambda>(i, r). (i, cell_at r (index_of c (df_columns df)))) (df_rows df)))"

fun is_Str :: "cell \<Rightarrow> bool" where
  "is_Str (Str s) = True"
| "is_Str c = False"

text \<open>
  The \<open>.str\<close> accessor exists only on a column of object dtype: an empty column, or one that
  holds at least one string.
\<close>

definition object_dtype :: "cell list \<Rightarrow> bool" where
  "object_dtype cs = (cs = [] \<or> list_ex is_Str cs)"

definition startswith :: "string \<Rightarrow> string \<Rightarrow> bool" where
  "startswith p s = (take (length p) s = p)"

text \<open>\<open>.str.startswith(p)\<close> on one element: a boolean for a string, missing otherwise.\<close>

fun str_startswith_cell :: "string \<Rightarrow> cell \<Rightarrow> bool option" where
  "str_startswith_cell p (Str s) = Some (startswith p s)"
| "str_startswith_cell p c = None"

definition str_startswith :: "string \<Rightarrow> (nat \<times> cell) list \<Rightarrow> exn + (bool option) list" where
  "str_startswith p col =
     (if object_dtype (map snd col) then Inr (map (\<lambda>(i, c). str_startswith_cell p c) col)
      else Inl (AttributeError ''Can only use .str accessor with string values!''))"

text \<open>\<open>~mask\<close>: a mask with a missing element is not boolean, and inverting it raises.\<close>

definition invert :: "(bool option) list \<Rightarrow> exn + bool list" where
  "invert m =
     (if list_ex (\<lambda>b. b = None) m then Inl (TypeError ''bad operand type for unary ~: float'')
      else Inr (map (\<lambda>b. b \<noteq> Some True) m))"

text \<open>\<open>df[mask]\<close>: the rows whose mask entry is true, in order, with their index labels.\<close>

definition select_rows :: "dataframe \<Rightarrow> bool list \<Rightarrow> dataframe" where
  "select_rows df m = df\<lparr>df_rows := map fst (filter snd (zip (df_rows df) m))\<rparr>"

definition required_columns :: "string list" where
  "required_columns =
     [''gene_id'', ''gene_name'', ''tpm_unstranded'', ''fpkm_unstranded'', ''fpkm_uq_unstranded'']"

definition gzip_magic :: bytes where
  "gzip_magic = [CHR 0x1F, CHR 0x8B]"

section \<open>\<open>process_file\<close>\<close>

text \<open>
  \<open>print(line)\<close>: the line is written, or \<open>print\<close> raises because standard output cannot
  encode it.
\<close>

definition print_line :: "env \<Rightarrow> string \<Rightarrow> exn + string list" where
  "print_line e line =
     (if stdout_accepts e line then Inr [line]
      else Inl (UnicodeEncodeError ''codec cannot encode character''))"

text \<open>Lines 20 to 27: sniff the first bytes, decompress when they are the gzip magic, parse.\<close>

definition is_gzipped :: "bytes \<Rightarrow> bool" where
  "is_gzipped payload = startswith gzip_magic (take 4 payload)"

definition decode :: "env \<Rightarrow> bytes \<Rightarrow> exn + bytes" where
  "decode e payload = (if is_gzipped payload then gunzip e payload else Inr payload)"

definition load_frame :: "env \<Rightarrow> bytes \<Rightarrow> exn + dataframe" where
  "load_frame e payload =
     (case decode e payload of
        Inl x \<Rightarrow> Inl x
      | Inr raw \<Rightarrow> (case read_csv e raw of Inl x \<Rightarrow> Inl x | Inr t \<Rightarrow> Inr (frame_of_table t)))"

text \<open>Line 29: \<open>df = df[~df['gene_id'].str.startswith('N_')]\<close>.\<close>

definition drop_summary_rows :: "dataframe \<Rightarrow> exn + dataframe" where
  "drop_summary_rows df =
     (case getitem df ''gene_id'' of
        Inl x \<Rightarrow> Inl x
      | Inr col \<Rightarrow>
          (case str_startswith ''N_'' col of
             Inl x \<Rightarrow> Inl x
           | Inr m \<Rightarrow> (case invert m of Inl x \<Rightarrow> Inl x | Inr keep \<Rightarrow> Inr (select_rows df keep))))"

text \<open>Lines 36 to 43, after the column check has passed.\<close>

definition processed_message :: "string \<Rightarrow> string \<Rightarrow> string" where
  "processed_message file_name sample_id =
     (''Processed file: '' @ file_name) @ ('' as sample_id: '' @ sample_id)"

definition extract_columns ::
  "env \<Rightarrow> string \<Rightarrow> string \<Rightarrow> dataframe \<Rightarrow> exn + (outcome \<times> string list)" where
  "extract_columns e sample_id file_name df =
     (case getitem df ''gene_id'' of Inl x \<Rightarrow> Inl x | Inr gi \<Rightarrow>
     (case getitem df ''gene_name'' of Inl x \<Rightarrow> Inl x | Inr gn \<Rightarrow>
     (case getitem df ''tpm_unstranded'' of Inl x \<Rightarrow> Inl x | Inr tpm \<Rightarrow>
     (case getitem df ''fpkm_unstranded'' of Inl x \<Rightarrow> Inl x | Inr fpkm \<Rightarrow>
     (case getitem df ''fpkm_uq_unstranded'' of Inl x \<Rightarrow> Inl x | Inr uq \<Rightarrow>
     (case print_line e (processed_message file_name sample_id) of Inl x \<Rightarrow> Inl x | Inr pr \<Rightarrow>
        Inr ((Some \<lparr>sname = sample_id, sitems = tpm\<rparr>,
              Some \<lparr>sname = sample_id, sitems = fpkm\<rparr>,
              Some \<lparr>sname = sample_id, sitems = uq\<rparr>,
              Some (map snd gi), Some (map snd gn)),
             pr)))))))"

definition skip_message :: "string \<Rightarrow> string" where
  "skip_message file_id = ''Skipping file '' @ file_id @ '': Missing required columns''"

text \<open>Lines 29 to 43 on a parsed frame: the body of the \<open>try\<close> after parsing.\<close>

definition process_frame ::
  "env \<Rightarrow> string \<Rightarrow> string \<Rightarrow> string \<Rightarrow> dataframe \<Rightarrow> exn + (outcome \<times> string list)" where
  "process_frame e file_id sample_id file_name df0 =
     (case drop_summary_rows df0 of
        Inl x \<Rightarrow> Inl x
      | Inr df \<Rightarrow>
          if \<not> list_all (\<lambda>col. col \<in> set (df_columns df)) required_columns
          then (case print_line e (skip_message file_id) of
                  Inl x \<Rightarrow> Inl x
                | Inr pr \<Rightarrow> Inr (no_result, pr))
          else extract_columns e sample_id file_name df)"

text \<open>Lines 20 to 43: everything the \<open>try\<close> does with the fetched payload.\<close>

definition process_payload ::
  "env \<Rightarrow> string \<Rightarrow> string \<Rightarrow> string \<Rightarrow> bytes \<Rightarrow> exn + (outcome \<times> string list)" where
  "process_payload e file_id sample_id file_name payload =
     (case load_frame e payload of
        Inl x \<Rightarrow> Inl x
      | Inr df0 \<Rightarrow> process_frame e file_id sample_id file_name df0)"

text \<open>Line 17: the address requested.\<close>

definition request_url :: "string \<Rightarrow> string \<Rightarrow> string" where
  "request_url data_endpoint file_id = data_endpoint @ ''/'' @ file_id"

text \<open>The body of the \<open>try\<close>, lines 17 to 43.\<close>

definition process_file_body ::
  "env \<Rightarrow> string \<Rightarrow> string \<Rightarrow> string \<Rightarrow> string \<Rightarrow> exn + (outcome \<times> string list)" where
  "process_file_body e file_id sample_id file_name data_endpoint =
     (case fetch e (request_url data_endpoint file_id) of
        Inl x \<Rightarrow> Inl x
      | Inr payload \<Rightarrow> process_payload e file_id sample_id file_name payload)"

text \<open>Lines 44 to 46: the handler of \<open>except Exception\<close>.\<close>

definition error_message :: "string \<Rightarrow> exn \<Rightarrow> string" where
  "error_message file_id x = ''Error processing file '' @ file_id @ '': '' @ exn_str x"

text \<open>
  Lines 15 to 46: the body under \<open>except Exception\<close>.  The value is the returned tuple and the
  lines printed, or the exception that leaves the call: the \<open>print\<close> of line 45 stands in the
  handler, under no \<open>try\<close>, and what it raises is not caught.
\<close>

definition process_file ::
  "env \<Rightarrow> string \<Rightarrow> string \<Rightarrow> string \<Rightarrow> string \<Rightarrow> exn + (outcome \<times> string list)" where
  "process_file e file_id sample_id file_name data_endpoint =
     (case process_file_body e file_id sample_id file_name data_endpoint of
        Inl x \<Rightarrow>
          (case print_line e (error_message file_id x) of
             Inl y \<Rightarrow> Inl y
           | Inr pr \<Rightarrow> Inr (no_result, pr))
      | Inr r \<Rightarrow> Inr r)"

section \<open>\<open>generate_expression_csvs\<close>: grouping\<close>

text \<open>One row of the metadata frame built by \<open>get_rna_seq_metadata\<close>.\<close>

record sample_record =
  sample_barcode :: string
  sample_type :: string
  tcga_code :: string
  file_id :: string
  file_name :: string

definition DATA_ENDPOINT :: string where
  "DATA_ENDPOINT = ''https://api.gdc.cancer.gov/data''"

text \<open>
  \<open>.str.lower()\<close> on the letters \<open>A\<close> to \<open>Z\<close>; every other byte is kept.  (Lowering a letter
  outside ASCII never yields a letter of \<open>tumor\<close> or \<open>normal\<close>.)
\<close>

definition lower_char :: "char \<Rightarrow> char" where
  "lower_char c =
     (case map_of (zip ''ABCDEFGHIJKLMNOPQRSTUVWXYZ'' ''abcdefghijklmnopqrstuvwxyz'') c of
        None \<Rightarrow> c
      | Some d \<Rightarrow> d)"

definition lower :: "string \<Rightarrow> string" where
  "lower s = map lower_char s"

text \<open>\<open>.str.contains(p)\<close> for a pattern of plain letters: \<open>p\<close> occurs somewhere in the string.\<close>

fun contains :: "string \<Rightarrow> string \<Rightarrow> bool" where
  "contains p [] = (p = [])"
| "contains p (c # cs) = (startswith p (c # cs) \<or> contains p cs)"

text \<open>Lines 108 and 109.\<close>

definition tumor_sample_df :: "sample_record list \<Rightarrow> sample_record list" where
  "tumor_sample_df sample_df = filter (\<lambda>r. contains ''tumor'' (lower (sample_type r))) sample_df"

definition normal_sample_df :: "sample_record list \<Rightarrow> sample_record list" where
  "normal_sample_df sample_df = filter (\<lambda>r. contains ''normal'' (lower (sample_type r))) sample_df"

section \<open>The worker pool and the collecting loop\<close>

text \<open>
  Lines 120 to 126 submit one \<open>process_file\<close> call per row of the group, in the order of
  \<open>iterrows\<close>, each with its own future; the futures are the keys of \<open>future_to_file\<close>.
  Line 128 takes the futures from \<open>as_completed\<close>, each of them once, in an order that the
  program does not determine: a schedule, given the pool size and the submitted rows, returns
  the rows in the order in which the loop receives their futures.
\<close>

type_synonym schedule = "nat \<Rightarrow> sample_record list \<Rightarrow> sample_record list"

text \<open>
  The pool of \<open>ThreadPoolExecutor(max_workers=w)\<close> under \<open>as_completed\<close>.  The submitted calls
  wait in the order of submission; at most \<open>w\<close> of them run at a time, and a free worker takes
  the call that has waited longest.  A call that has finished stays with the finished ones until
  the loop takes it: \<open>as_completed\<close> keeps the finished futures in a set and hands them out one
  by one.  What happens next is not determined by the program; it is read from \<open>choice step\<close>:
  either one of the running calls finishes (it always does when no finished call is left to
  hand out), or the loop receives one of the finished calls.  The result is the order in which
  the loop receives the calls.  (The library refuses a pool of size zero; the source builds pools
  of size 25.)
\<close>

function pool_order ::
  "(nat \<Rightarrow> bool \<times> nat) \<Rightarrow> nat \<Rightarrow> nat \<Rightarrow> 'a list \<Rightarrow> 'a list \<Rightarrow> 'a list \<Rightarrow> 'a list" where
  "pool_order choice w step pending running finished =
     (let r = running @ take (w - length running) pending;
          p = drop (w - length running) pending
      in if r = [] \<and> finished = [] then []
         else if r \<noteq> [] \<and> (fst (choice step) \<or> finished = []) then
           (let i = snd (choice step) mod length r
            in pool_order choice w (Suc step) p (take i r @ drop (Suc i) r) (finished @ [r ! i]))
         else
           (let j = snd (choice step) mod length finished
            in finished ! j #
               pool_order choice w (Suc step) p r (take j finished @ drop (Suc j) finished)))"
  by pat_completeness auto
termination
proof (relation "measure (\<lambda>(choice, w, step, pending, running, finished).
                   2 * (length pending + length running) + length finished)")
  show "wf (measure (\<lambda>(choice :: nat \<Rightarrow> bool \<times> nat, w :: nat, step :: nat, pending :: 'a list,
                       running :: 'a list, finished :: 'a list).
                   2 * (length pending + length running) + length finished))"
    by simp
next
  fix choice :: "nat \<Rightarrow> bool \<times> nat" and w step :: nat
    and pending running finished r p :: "'a list" and i
  assume r: "r = running @ take (w - length running) pending"
    and p: "p = drop (w - length running) pending"
    and ne: "r \<noteq> [] \<and> (fst (choice step) \<or> finished = [])"
    and i: "i = snd (choice step) mod length r"
  from ne i have "i < length r" by simp
  then have "Suc (length (take i r @ drop (Suc i) r)) = length r" by simp
  moreover have "length p + length r = length pending + length running"
    unfolding r p by simp
  ultimately show
    "((choice, w, Suc step, p, take i r @ drop (Suc i) r, finished @ [r ! i]),
      (choice, w, step, pending, running, finished))
       \<in> measure (\<lambda>(choice, w, step, pending, running, finished).
                   2 * (length pending + length running) + length finished)"
    by simp
next
  fix choice :: "nat \<Rightarrow> bool \<times> nat" and w step :: nat
    and pending running finished r p :: "'a list" and j
  assume r: "r = running @ take (w - length running) pending"
    and p: "p = drop (w - length running) pending"
    and ne: "\<not> (r = [] \<and> finished = [])"
    and nf: "\<not> (r \<noteq> [] \<and> (fst (choice step) \<or> finished = []))"
    and j: "j = snd (choice step) mod length finished"
  from ne nf have "finished \<noteq> []" by blast
  with j have "j < length finished" by simp
  then have "Suc (length (take j finished @ drop (Suc j) finished)) = length finished" by simp
  moreover have "length p + length r = length pending + length running"
    unfolding r p by simp
  ultimately show
    "((choice, w, Suc step, p, r, take j finished @ drop (Suc j) finished),
      (choice, w, step, pending, running, finished))
       \<in> measure (\<lambda>(choice, w, step, pending, running, finished).
                   2 * (length pending + length running) + length finished)"
    by simp
qed

declare pool_order.simps [simp del]

text \<open>\<open>as_completed\<close> over the futures of one pool, for one run of choices.\<close>

definition as_completed :: "(nat \<Rightarrow> bool \<times> nat) \<Rightarrow> schedule" where
  "as_completed choice w group_df = pool_order choice w 0 group_df [] []"

definition run_record :: "env \<Rightarrow> sample_record \<Rightarrow> exn + (outcome \<times> string list)" where
  "run_record e r = process_file e (file_id r) (sample_barcode r) (file_name r) DATA_ENDPOINT"

text \<open>
  What the futures hold, in the order in which the loop receives them: a returned value or
  an exception.
\<close>

definition concurrent_pipeline ::
  "env \<Rightarrow> schedule \<Rightarrow> nat \<Rightarrow> sample_record list \<Rightarrow> (exn + (outcome \<times> string list)) list" where
  "concurrent_pipeline e sch max_workers group_df = map (run_record e) (sch max_workers group_df)"

text \<open>
  Line 129, future after future: \<open>future.result()\<close> hands out the returned tuple, or raises
  again what the call raised, which ends the loop.
\<close>

fun returned :: "(exn + (outcome \<times> string list)) list \<Rightarrow> exn + outcome list" where
  "returned [] = Inr []"
| "returned (Inl x # rest) = Inl x"
| "returned (Inr (oc, pr) # rest) =
     (case returned rest of Inl x \<Rightarrow> Inl x | Inr ocs \<Rightarrow> Inr (oc # ocs))"

text \<open>
  The addresses requested by the calls of one pool, in the order of the schedule.  Leaving the
  \<open>with\<close> block waits for every submitted call, also when the loop has ended early.
\<close>

definition pipeline_requests :: "schedule \<Rightarrow> nat \<Rightarrow> sample_record list \<Rightarrow> string list" where
  "pipeline_requests sch max_workers group_df =
     map (\<lambda>r. request_url DATA_ENDPOINT (file_id r)) (sch max_workers group_df)"

text \<open>Lines 117 and 118: the accumulators of one group.\<close>

record accumulators =
  tpm_data :: "series list"
  fpkm_data :: "series option list"
  fpkm_uq_data :: "series option list"
  new_gene_ids :: "cell list option"
  new_gene_names :: "cell list option"

definition empty_accumulators :: accumulators where
  "empty_accumulators =
     \<lparr>tpm_data = [], fpkm_data = [], fpkm_uq_data = [], new_gene_ids = None, new_gene_names = None\<rparr>"

text \<open>Lines 129 to 136: one turn of the loop over completed futures.\<close>

fun collect_step :: "accumulators \<Rightarrow> outcome \<Rightarrow> accumulators" where
  "collect_step acc (tpm_series, fpkm_series, fpkm_uq_series, gene_ids, gene_names) =
     (case tpm_series of
        None \<Rightarrow> acc
      | Some t \<Rightarrow>
          (let acc1 = acc\<lparr>tpm_data := tpm_data acc @ [t],
                           fpkm_data := fpkm_data acc @ [fpkm_series],
                           fpkm_uq_data := fpkm_uq_data acc @ [fpkm_uq_series]\<rparr>
           in if new_gene_ids acc = None \<and> gene_ids \<noteq> None
              then acc1\<lparr>new_gene_ids := gene_ids, new_gene_names := gene_names\<rparr>
              else acc1))"

definition collect :: "outcome list \<Rightarrow> accumulators" where
  "collect results = foldl collect_step empty_accumulators results"

section \<open>Building the matrices\<close>

text \<open>A matrix: its row index and its labelled columns, left to right.\<close>

record matrix =
  mx_index :: "nat list"
  mx_columns :: "(string \<times> cell list) list"

definition series_index :: "series \<Rightarrow> nat list" where
  "series_index s = map fst (sitems s)"

definition series_at :: "series \<Rightarrow> nat \<Rightarrow> cell" where
  "series_at s i = (case map_of (sitems s) i of None \<Rightarrow> NaN | Some c \<Rightarrow> c)"

text \<open>
  The union of the indexes of several series, unsorted: the labels of the first, then the labels
  of each later one that are new, in their order.
\<close>

definition union_index :: "nat list list \<Rightarrow> nat list" where
  "union_index ixs = foldl (\<lambda>acc ix. acc @ filter (\<lambda>i. i \<notin> set acc) ix) [] ixs"

text \<open>
  \<open>pd.concat(objs, axis=1)\<close>: \<open>None\<close> entries are dropped, and a list with nothing else raises.
  The rows are the union of the indexes of the series; each series becomes one column under its
  name, with \<open>NaN\<close> where it has no row.
\<close>

definition concat_axis1 :: "series option list \<Rightarrow> exn + matrix" where
  "concat_axis1 objs =
     (let ss = List.map_filter (\<lambda>x. x) objs in
      if ss = [] then Inl (ValueError ''All objects passed were None'')
      else
        (let ix = union_index (map series_index ss) in
         Inr \<lparr>mx_index = ix, mx_columns = map (\<lambda>s. (sname s, map (series_at s) ix)) ss\<rparr>))"

text \<open>
  \<open>m.insert(0, label, value)\<close>: raises when the label is already a column, or when the list has
  not one value per row.  The value \<open>None\<close> fills the column with missing values.
\<close>

definition insert0 :: "string \<Rightarrow> cell list option \<Rightarrow> matrix \<Rightarrow> exn + matrix" where
  "insert0 label v m =
     (if label \<in> set (map fst (mx_columns m))
      then Inl (ValueError (''cannot insert '' @ label @ '', already exists''))
      else
        (case v of
           None \<Rightarrow> Inr (m\<lparr>mx_columns := (label, replicate (length (mx_index m)) NaN) # mx_columns m\<rparr>)
         | Some vs \<Rightarrow>
             if length vs \<noteq> length (mx_index m)
             then Inl (ValueError ''Length of values does not match length of index'')
             else Inr (m\<lparr>mx_columns := (label, vs) # mx_columns m\<rparr>)))"

text \<open>
  What one turn of the loop over the groups comes to: the group had no rows (line 112), no
  sample gave data (line 138), or the three matrices \<open>tpm\<close>, \<open>fpkm\<close>, \<open>fpkm_uq\<close> were built and
  saved.  Writing the three files (lines 156 to 167) is left to the file system and is not part
  of the model; the matrices stand for what is written.
\<close>

datatype group_result = NoSamples | NoValidData | Saved matrix matrix matrix

text \<open>
  Lines 138 to 154.  The three matrices are built one after the other, each one concatenated
  before the first \<open>insert\<close>; an exception here is not caught anywhere.
\<close>

definition finalize :: "accumulators \<Rightarrow> exn + group_result" where
  "finalize acc =
     (if tpm_data acc = [] then Inr NoValidData
      else
        (case concat_axis1 (map Some (tpm_data acc)) of Inl x \<Rightarrow> Inl x | Inr tm0 \<Rightarrow>
        (case concat_axis1 (fpkm_data acc) of Inl x \<Rightarrow> Inl x | Inr fm0 \<Rightarrow>
        (case concat_axis1 (fpkm_uq_data acc) of Inl x \<Rightarrow> Inl x | Inr um0 \<Rightarrow>
        (case insert0 ''gene_name'' (new_gene_names acc) tm0 of Inl x \<Rightarrow> Inl x | Inr tm1 \<Rightarrow>
        (case insert0 ''gene_id'' (new_gene_ids acc) tm1 of Inl x \<Rightarrow> Inl x | Inr tm \<Rightarrow>
        (case insert0 ''gene_name'' (new_gene_names acc) fm0 of Inl x \<Rightarrow> Inl x | Inr fm1 \<Rightarrow>
        (case insert0 ''gene_id'' (new_gene_ids acc) fm1 of Inl x \<Rightarrow> Inl x | Inr fm \<Rightarrow>
        (case insert0 ''gene_name'' (new_gene_names acc) um0 of Inl x \<Rightarrow> Inl x | Inr um1 \<Rightarrow>
        (case insert0 ''gene_id'' (new_gene_ids acc) um1 of Inl x \<Rightarrow> Inl x | Inr um \<Rightarrow>
           Inr (Saved tm fm um)))))))))))"

text \<open>The aggregation of one stream of returned results, lines 128 to 154.\<close>

definition aggregate :: "outcome list \<Rightarrow> exn + group_result" where
  "aggregate results = finalize (collect results)"

definition max_workers :: nat where
  "max_workers = 25"

text \<open>Lines 112 to 154 for one group.\<close>

definition run_group :: "env \<Rightarrow> schedule \<Rightarrow> sample_record list \<Rightarrow> exn + group_result" where
  "run_group e sch group_df =
     (if group_df = [] then Inr NoSamples
      else (case returned (concurrent_pipeline e sch max_workers group_df) of
              Inl x \<Rightarrow> Inl x
            | Inr results \<Rightarrow> aggregate results))"

text \<open>
  What a run over one site has done: the groups it finished, with their results, the
  addresses it requested, and the exception that ended it, if one did.
\<close>

record site_run =
  groups_done :: "(string \<times> group_result) list"
  requested :: "string list"
  aborted :: "exn option"

text \<open>The loop of line 111 over the labelled groups, in order.\<close>

fun run_groups :: "env \<Rightarrow> schedule \<Rightarrow> (string \<times> sample_record list) list \<Rightarrow> site_run" where
  "run_groups e sch [] = \<lparr>groups_done = [], requested = [], aborted = None\<rparr>"
| "run_groups e sch ((label, group_df) # rest) =
     (let reqs = (if group_df = [] then [] else pipeline_requests sch max_workers group_df) in
      case run_group e sch group_df of
        Inl x \<Rightarrow> \<lparr>groups_done = [], requested = reqs, aborted = Some x\<rparr>
      | Inr res \<Rightarrow>
          (let later = run_groups e sch rest in
           later\<lparr>groups_done := (label, res) # groups_done later,
                  requested := reqs @ requested later\<rparr>))"

text \<open>
  The body of the loop of \<open>generate_expression_csvs\<close> for one site, lines 103 to 154, from the
  metadata frame that \<open>get_rna_seq_metadata\<close> returned for it.  An exception that ends the run
  over one site ends the whole loop over the sites.  The lines that the loop itself prints hold
  the name of the site and the label of the group only; the site is one whose name standard
  output can encode.
\<close>

definition site_groups :: "sample_record list \<Rightarrow> (string \<times> sample_record list) list" where
  "site_groups sample_df =
     [(''tumor'', tumor_sample_df sample_df), (''normal'', normal_sample_df sample_df)]"

definition run_site :: "env \<Rightarrow> schedule \<Rightarrow> sample_record list \<Rightarrow> site_run" where
  "run_site e sch sample_df =
     (if sample_df = [] then \<lparr>groups_done = [], requested = [], aborted = None\<rparr>
      else run_groups e sch (site_groups sample_df))"

section \<open>The line reader behind \<open>read_csv(..., sep='\t', comment='#')\<close>\<close>








text \<open>Fields joined by tabs, and lines ended by line feeds.\<close>

fun join_tab :: "string list \<Rightarrow> string" where
  "join_tab [] = []"
| "join_tab [x] = x"
| "join_tab (x # y # ys) = x @ [CHR 0x09] @ join_tab (y # ys)"

definition tsv_text :: "string list list \<Rightarrow> bytes" where
  "tsv_text ls = concat (map (\<lambda>l. join_tab l @ [CHR 0x0A]) ls)"




section \<open>The rows and columns a successful call hands back\<close>

text \<open>
  Line 29 in terms of the parsed table: the rows kept, each with its index label, and the
  column with a given label read off a list of rows.
\<close>

definition kept_rows :: "table \<Rightarrow> (nat \<times> cell list) list" where
  "kept_rows tb =
     filter (\<lambda>(i, r). str_startswith_cell ''N_'' (cell_at r (index_of ''gene_id'' (columns tb)))
                        \<noteq> Some True)
       (enumerate 0 (rows tb))"

definition column_items :: "string \<Rightarrow> table \<Rightarrow> (nat \<times> cell list) list \<Rightarrow> (nat \<times> cell) list" where
  "column_items c tb rs = map (\<lambda>(i, r). (i, cell_at r (index_of c (columns tb)))) rs"

section \<open>Line 130: which results count\<close>

definition succeeded :: "outcome \<Rightarrow> bool" where
  "succeeded oc = (fst oc \<noteq> None)"

text \<open>The same for what a future holds: a call that raised hands out no result to count.\<close>

fun result_counts :: "exn + (outcome \<times> string list) \<Rightarrow> bool" where
  "result_counts (Inl x) = False"
| "result_counts (Inr (oc, pr)) = succeeded oc"

text \<open>
  What the tuples returned by \<open>process_file\<close> have in common: nothing at all, or three series
  under one name and over one index, with one gene identifier and one gene name per row.
\<close>

fun same_sample :: "outcome \<Rightarrow> bool" where
  "same_sample (Some t, Some f, Some u, Some gi, Some gn) =
     (sname f = sname t \<and> sname u = sname t \<and>
      series_index f = series_index t \<and> series_index u = series_index t \<and>
      length gi = length (sitems t) \<and> length gn = length (sitems t) \<and>
      distinct (series_index t))"
| "same_sample (None, None, None, None, None) = True"
| "same_sample oc = False"

section \<open>A small site, for concrete runs\<close>

text \<open>A well-formed file with one gene.\<close>

definition file_one_text :: bytes where
  "file_one_text = tsv_text [required_columns, [''ENSG1'', ''A'', ''1.0'', ''2.0'', ''3.0'']]"

definition file_one_table :: table where
  "file_one_table =
     \<lparr>columns = required_columns,
      rows = [[Str ''ENSG1'', Str ''A'', Num ''1.0'', Num ''2.0'', Num ''3.0'']]\<rparr>"

text \<open>A well-formed file with two genes and a summary row between them.\<close>

definition file_two_text :: bytes where
  "file_two_text =
     tsv_text [required_columns,
               [''ENSG1'', ''A'', ''4.0'', ''5.0'', ''6.0''],
               [''N_ambiguous'', [], ''0'', ''0'', ''0''],
               [''ENSG2'', ''B'', ''7.0'', ''8.0'', ''9.0'']]"

definition file_two_table :: table where
  "file_two_table =
     \<lparr>columns = required_columns,
      rows = [[Str ''ENSG1'', Str ''A'', Num ''4.0'', Num ''5.0'', Num ''6.0''],
              [Str ''N_ambiguous'', NaN, Num ''0'', Num ''0'', Num ''0''],
              [Str ''ENSG2'', Str ''B'', Num ''7.0'', Num ''8.0'', Num ''9.0'']]\<rparr>"

text \<open>A file without the \<open>gene_id\<close> column.\<close>

definition file_bad_text :: bytes where
  "file_bad_text =
     tsv_text [[''gene_name'', ''tpm_unstranded'', ''fpkm_unstranded'', ''fpkm_uq_unstranded''],
               [''A'', ''1.0'', ''2.0'', ''3.0'']]"

definition file_bad_table :: table where
  "file_bad_table =
     \<lparr>columns = [''gene_name'', ''tpm_unstranded'', ''fpkm_unstranded'', ''fpkm_uq_unstranded''],
      rows = [[Str ''A'', Num ''1.0'', Num ''2.0'', Num ''3.0'']]\<rparr>"

text \<open>
  The gzip stream of \<open>file_one_text\<close> (RFC 1952, modification time 0), and the gzip stream of
  that stream.
\<close>

definition gz_one :: bytes where
  "gz_one = [
      CHR 0x1F, CHR 0x8B, CHR 0x08, CHR 0x00, CHR 0x00, CHR 0x00, CHR 0x00, CHR 0x00,
      CHR 0x02, CHR 0x03, CHR 0x4B, CHR 0x4F, CHR 0xCD, CHR 0x4B, CHR 0x8D, CHR 0xCF,
      CHR 0x4C, CHR 0xE1, CHR 0x4C, CHR 0x07, CHR 0xD1, CHR 0x79, CHR 0x89, CHR 0xB9,
      CHR 0xA9, CHR 0x9C, CHR 0x25, CHR 0x05, CHR 0xB9, CHR 0xF1, CHR 0xA5, CHR 0x79,
      CHR 0xC5, CHR 0x25, CHR 0x45, CHR 0x89, CHR 0x79, CHR 0x29, CHR 0xA9, CHR 0x29,
      CHR 0x9C, CHR 0x69, CHR 0x05, CHR 0xD9, CHR 0x58, CHR 0xF8, CHR 0x85, CHR 0x48,
      CHR 0x42, CHR 0x5C, CHR 0xAE, CHR 0x7E, CHR 0xC1, CHR 0xEE, CHR 0x86, CHR 0x9C,
      CHR 0x8E, CHR 0x9C, CHR 0x86, CHR 0x7A, CHR 0x06, CHR 0x9C, CHR 0x46, CHR 0x40,
      CHR 0x6C, CHR 0xAC, CHR 0x67, CHR 0xC0, CHR 0x05, CHR 0x00, CHR 0x07, CHR 0x18,
      CHR 0xBD, CHR 0xDE, CHR 0x58, CHR 0x00, CHR 0x00, CHR 0x00]"

definition gz_gz_one :: bytes where
  "gz_gz_one = [
      CHR 0x1F, CHR 0x8B, CHR 0x08, CHR 0x00, CHR 0x00, CHR 0x00, CHR 0x00, CHR 0x00,
      CHR 0x02, CHR 0x03, CHR 0x93, CHR 0xEF, CHR 0xE6, CHR 0x60, CHR 0x00, CHR 0x01,
      CHR 0x26, CHR 0x66, CHR 0x6F, CHR 0xFF, CHR 0xB3, CHR 0xDE, CHR 0xBD, CHR 0xE7,
      CHR 0x7D, CHR 0x1E, CHR 0xFA, CHR 0xB0, CHR 0x5F, CHR 0xAC, CHR 0xEC, CHR 0xDC,
      CHR 0xB9, CHR 0x72, CHR 0x8E, CHR 0x2A, CHR 0xEB, CHR 0xCE, CHR 0x8F, CHR 0x4B,
      CHR 0x2B, CHR 0x8F, CHR 0xAA, CHR 0xBA, CHR 0x76, CHR 0x56, CHR 0x6A, CHR 0xAE,
      CHR 0xD4, CHR 0x9C, CHR 0x93, CHR 0xC9, CHR 0x7A, CHR 0x33, CHR 0xE2, CHR 0x47,
      CHR 0xAB, CHR 0x87, CHR 0x53, CHR 0xCC, CHR 0xBA, CHR 0xBA, CHR 0x83, CHR 0xEF,
      CHR 0xDA, CHR 0xE6, CHR 0xF4, CHR 0xCD, CHR 0x69, CHR 0xAB, CHR 0x62, CHR 0x9B,
      CHR 0xE3, CHR 0xE6, CHR 0x90, CHR 0xB3, CHR 0x26, CHR 0xFD, CHR 0x00, CHR 0x2B,
      CHR 0x03, CHR 0xBB, CHR 0xC4, CHR 0xDE, CHR 0x7B, CHR 0x11, CHR 0x40, CHR 0x53,
      CHR 0x00, CHR 0xB8, CHR 0x45, CHR 0x4D, CHR 0xB4, CHR 0x4E, CHR 0x00, CHR 0x00,
      CHR 0x00]"

text \<open>A payload that starts like a gzip stream and is none.\<close>

definition corrupt_gz :: bytes where
  "corrupt_gz = [CHR 0x1F, CHR 0x8B, CHR 0x00]"

text \<open>
  The collaborators of the small site.  The decoder and the parser are given by their values on
  these payloads; the parser rejects the compressed bytes, which are not text.
\<close>

definition demo_fetch :: "string \<Rightarrow> exn + bytes" where
  "demo_fetch url =
     (if url = request_url DATA_ENDPOINT ''f1'' then Inr file_one_text
      else if url = request_url DATA_ENDPOINT ''f2'' then Inr file_two_text
      else if url = request_url DATA_ENDPOINT ''f3'' then Inr file_bad_text
      else if url = request_url DATA_ENDPOINT ''f4'' then Inr gz_one
      else if url = request_url DATA_ENDPOINT ''f5'' then Inr gz_gz_one
      else if url = request_url DATA_ENDPOINT ''f6'' then Inr corrupt_gz
      else Inl (LibraryError ''404 Client Error''))"

definition demo_gunzip :: "bytes \<Rightarrow> exn + bytes" where
  "demo_gunzip b =
     (if b = gz_one then Inr file_one_text
      else if b = gz_gz_one then Inr gz_one
      else Inl (LibraryError ''Not a gzipped file''))"

definition demo_read_csv :: "bytes \<Rightarrow> exn + table" where
  "demo_read_csv b =
     (if b = file_one_text then Inr file_one_table
      else if b = file_two_text then Inr file_two_table
      else if b = file_bad_text then Inr file_bad_table
      else Inl (LibraryError ''codec cannot decode byte 0x8b''))"

text \<open>
  Standard output of the small site encodes UTF-8 strictly.  The byte \<open>80\<close> on its own stands
  for the lone surrogate \<open>U+DC80\<close> that it decodes to, which cannot be encoded.
\<close>

definition demo_stdout_accepts :: "string \<Rightarrow> bool" where
  "demo_stdout_accepts line = (CHR 0x80 \<notin> set line)"

definition demo_env :: env where
  "demo_env = \<lparr>fetch = demo_fetch, gunzip = demo_gunzip, read_csv = demo_read_csv,
               stdout_accepts = demo_stdout_accepts\<rparr>"


definition in_order :: schedule where
  "in_order w g = g"

definition reversed :: schedule where
  "reversed w g = rev g"

definition rec_one :: sample_record where
  "rec_one = \<lparr>sample_barcode = ''TCGA-01'', sample_type = ''Primary Tumor'',
              tcga_code = ''TCGA-X'', file_id = ''f1'', file_name = ''one.tsv''\<rparr>"

definition rec_two :: sample_record where
  "rec_two = \<lparr>sample_barcode = ''TCGA-02'', sample_type = ''Tumor adjacent normal'',
              tcga_code = ''TCGA-X'', file_id = ''f2'', file_name = ''two.tsv''\<rparr>"

definition rec_bad :: sample_record where
  "rec_bad = \<lparr>sample_barcode = ''TCGA-03'', sample_type = ''Solid Tissue Normal'',
              tcga_code = ''TCGA-X'', file_id = ''f3'', file_name = ''bad.tsv''\<rparr>"

definition rec_named_gene_id :: sample_record where
  "rec_named_gene_id = \<lparr>sample_barcode = ''gene_id'', sample_type = ''Primary Tumor'',
              tcga_code = ''TCGA-X'', file_id = ''f1'', file_name = ''one.tsv''\<rparr>"

text \<open>A record whose file identifier holds the lone surrogate; the site has no such file.\<close>

definition rec_unprintable :: sample_record where
  "rec_unprintable = \<lparr>sample_barcode = ''TCGA-07'', sample_type = ''Primary Tumor'',
              tcga_code = ''TCGA-X'', file_id = [CHR ''f'', CHR 0x80], file_name = ''none.tsv''\<rparr>"

text \<open>
  Two runs of choices: in the first the loop receives every call as soon as it has finished, in
  the second every call finishes before the loop receives one, and the loop receives the one
  that finished second first.
\<close>

definition first_done :: "nat \<Rightarrow> bool \<times> nat" where
  "first_done step = (False, 0)"

definition all_done_first :: "nat \<Rightarrow> bool \<times> nat" where
  "all_done_first step = (True, 1)"

definition rec_other :: sample_record where
  "rec_other = \<lparr>sample_barcode = ''TCGA-04'', sample_type = ''Cell Line'',
              tcga_code = ''TCGA-X'', file_id = ''f1'', file_name = ''one.tsv''\<rparr>"


section \<open>Facts about \<open>process_file\<close>\<close>

lemmas demo_defs = demo_env_def demo_fetch_def demo_gunzip_def demo_read_csv_def
  demo_stdout_accepts_def
  file_one_text_def file_two_text_def file_bad_text_def gz_one_def gz_gz_one_def corrupt_gz_def
  tsv_text_def
  required_columns_def request_url_def DATA_ENDPOINT_def
  file_one_table_def file_two_table_def file_bad_table_def

lemmas body_defs = process_file_def process_file_body_def process_payload_def load_frame_def
  decode_def is_gzipped_def gzip_magic_def startswith_def frame_of_table_def process_frame_def
  drop_summary_rows_def getitem_def str_startswith_def object_dtype_def invert_def select_rows_def
  extract_columns_def index_of_def cell_at_def no_result_def print_line_def

lemma print_line_Inr: "print_line e line = Inr pr \<Longrightarrow> pr = [line] \<and> stdout_accepts e line"
  by (auto simp: print_line_def split: if_splits)

lemma process_frame_shape:
  assumes "process_frame e fid sid fn df0 = Inr (oc, pr)"
  shows "(\<exists>line. pr = [line]) \<and>
         (oc = no_result \<or> (\<exists>t f u gi gn. oc = (Some t, Some f, Some u, Some gi, Some gn)))"
  using assms
  by (auto simp: process_frame_def extract_columns_def dest: print_line_Inr
      split: sum.splits if_splits)

lemma process_file_shape:
  assumes "process_file e fid sid fn ep = Inr (oc, pr)"
  shows "(\<exists>line. pr = [line]) \<and>
         (oc = no_result \<or> (\<exists>t f u gi gn. oc = (Some t, Some f, Some u, Some gi, Some gn)))"
proof (cases "process_file_body e fid sid fn ep")
  case (Inl x)
  with assms show ?thesis
    by (auto simp: process_file_def dest: print_line_Inr split: sum.splits)
next
  case (Inr r)
  with assms have r: "r = (oc, pr)" by (simp add: process_file_def)
  from Inr r have "\<exists>df0. process_frame e fid sid fn df0 = Inr (oc, pr)"
    by (auto simp: process_file_body_def process_payload_def split: sum.splits)
  then obtain df0 where "process_frame e fid sid fn df0 = Inr (oc, pr)" ..
  from process_frame_shape[OF this] show ?thesis .
qed



lemma run_one:
  assumes "CHR 0x80 \<notin> set sid" and "CHR 0x80 \<notin> set fn"
  shows "process_file demo_env ''f1'' sid fn DATA_ENDPOINT =
     Inr ((Some \<lparr>sname = sid, sitems = [(0, Num ''1.0'')]\<rparr>,
           Some \<lparr>sname = sid, sitems = [(0, Num ''2.0'')]\<rparr>,
           Some \<lparr>sname = sid, sitems = [(0, Num ''3.0'')]\<rparr>,
           Some [Str ''ENSG1''], Some [Str ''A'']),
          [processed_message fn sid])"
  using assms by (simp add: body_defs demo_defs processed_message_def)

lemma run_two:
  assumes "CHR 0x80 \<notin> set sid" and "CHR 0x80 \<notin> set fn"
  shows "process_file demo_env ''f2'' sid fn DATA_ENDPOINT =
     Inr ((Some \<lparr>sname = sid, sitems = [(0, Num ''4.0''), (2, Num ''7.0'')]\<rparr>,
           Some \<lparr>sname = sid, sitems = [(0, Num ''5.0''), (2, Num ''8.0'')]\<rparr>,
           Some \<lparr>sname = sid, sitems = [(0, Num ''6.0''), (2, Num ''9.0'')]\<rparr>,
           Some [Str ''ENSG1'', Str ''ENSG2''], Some [Str ''A'', Str ''B'']),
          [processed_message fn sid])"
  using assms by (simp add: body_defs demo_defs processed_message_def)

lemma run_bad:
  "process_file demo_env ''f3'' sid fn DATA_ENDPOINT =
     Inr (no_result, [error_message ''f3'' (KeyError ''gene_id'')])"
  by (simp add: body_defs demo_defs error_message_def)

lemma run_gz_gz:
  "process_file demo_env ''f5'' sid fn DATA_ENDPOINT =
     Inr (no_result, [error_message ''f5'' (LibraryError ''codec cannot decode byte 0x8b'')])"
  by (simp add: body_defs demo_defs error_message_def)

lemma run_missing:
  "process_file demo_env ''f9'' sid fn DATA_ENDPOINT =
     Inr (no_result, [error_message ''f9'' (LibraryError ''404 Client Error'')])"
  by (simp add: body_defs demo_defs error_message_def)

lemma run_corrupt:
  "process_file demo_env ''f6'' sid fn DATA_ENDPOINT =
     Inr (no_result, [error_message ''f6'' (LibraryError ''Not a gzipped file'')])"
  by (simp add: body_defs demo_defs error_message_def)

lemma run_unprintable:
  "process_file demo_env [CHR ''f'', CHR 0x80] sid fn DATA_ENDPOINT =
     Inl (UnicodeEncodeError ''codec cannot encode character'')"
  by (simp add: body_defs demo_defs error_message_def)

lemma filter_by_mask: "map fst (filter snd (zip xs (map p xs))) = filter p xs"
  by (induction xs) auto

lemma invert_Inr:
  assumes "invert m = Inr keep"
  shows "keep = map (\<lambda>b. b \<noteq> Some True) m \<and> None \<notin> set m"
  using assms by (auto simp: invert_def list_ex_iff split: if_splits)

lemma drop_summary_rows_Inr:
  assumes "drop_summary_rows df0 = Inr df"
  shows "df_columns df = df_columns df0 \<and>
         df_rows df =
           filter (\<lambda>(i, r). str_startswith_cell ''N_''
                       (cell_at r (index_of ''gene_id'' (df_columns df0))) \<noteq> Some True)
             (df_rows df0)"
proof -
  let ?k = "index_of ''gene_id'' (df_columns df0)"
  let ?p = "\<lambda>(i :: nat, r). str_startswith_cell ''N_'' (cell_at r ?k) \<noteq> Some True"
  from assms obtain col m keep where
    col: "getitem df0 ''gene_id'' = Inr col" and
    m: "str_startswith ''N_'' col = Inr m" and
    keep: "invert m = Inr keep" and
    df: "df = select_rows df0 keep"
    by (auto simp: drop_summary_rows_def split: sum.splits)
  from col have col_eq: "col = map (\<lambda>(i, r). (i, cell_at r ?k)) (df_rows df0)"
    by (auto simp: getitem_def split: if_splits)
  from m have m_eq: "m = map (\<lambda>(i, c). str_startswith_cell ''N_'' c) col"
    by (auto simp: str_startswith_def split: if_splits)
  from invert_Inr[OF keep] have keep_eq: "keep = map (\<lambda>b. b \<noteq> Some True) m" by simp
  have "keep = map ?p (df_rows df0)"
    unfolding keep_eq m_eq col_eq by (simp add: comp_def case_prod_unfold)
  then have "df_rows df = filter ?p (df_rows df0)"
    using df by (simp add: select_rows_def filter_by_mask)
  then show ?thesis using df by (simp add: select_rows_def)
qed

lemma extract_columns_Inr:
  assumes "extract_columns e sid fn df = Inr (oc, pr)"
  shows "oc =
    (Some \<lparr>sname = sid,
           sitems = map (\<lambda>(i, r). (i, cell_at r (index_of ''tpm_unstranded'' (df_columns df))))
                      (df_rows df)\<rparr>,
     Some \<lparr>sname = sid,
           sitems = map (\<lambda>(i, r). (i, cell_at r (index_of ''fpkm_unstranded'' (df_columns df))))
                      (df_rows df)\<rparr>,
     Some \<lparr>sname = sid,
           sitems = map (\<lambda>(i, r). (i, cell_at r (index_of ''fpkm_uq_unstranded'' (df_columns df))))
                      (df_rows df)\<rparr>,
     Some (map (\<lambda>(i, r). cell_at r (index_of ''gene_id'' (df_columns df))) (df_rows df)),
     Some (map (\<lambda>(i, r). cell_at r (index_of ''gene_name'' (df_columns df))) (df_rows df)))"
  using assms
  by (auto simp: extract_columns_def getitem_def split: if_splits sum.splits)

lemma map_snd_column_items:
  "map snd (column_items c tb rs) = map (\<lambda>(i, r). cell_at r (index_of c (columns tb))) rs"
  by (simp add: column_items_def comp_def case_prod_unfold)

lemma map_fst_column_items: "map fst (column_items c tb rs) = map fst rs"
  by (simp add: column_items_def comp_def case_prod_unfold)

text \<open>What a successful call returns, in terms of the parsed table.\<close>

lemma process_file_success:
  assumes "process_file e fid sid fn ep = Inr ((Some t, f, u, gi, gn), pr)"
  shows "\<exists>payload raw tb.
           fetch e (request_url ep fid) = Inr payload \<and> decode e payload = Inr raw \<and>
           read_csv e raw = Inr tb \<and>
           t = \<lparr>sname = sid, sitems = column_items ''tpm_unstranded'' tb (kept_rows tb)\<rparr> \<and>
           f = Some \<lparr>sname = sid, sitems = column_items ''fpkm_unstranded'' tb (kept_rows tb)\<rparr> \<and>
           u = Some \<lparr>sname = sid, sitems = column_items ''fpkm_uq_unstranded'' tb (kept_rows tb)\<rparr> \<and>
           gi = Some (map snd (column_items ''gene_id'' tb (kept_rows tb))) \<and>
           gn = Some (map snd (column_items ''gene_name'' tb (kept_rows tb)))"
proof -
  let ?oc = "(Some t, f, u, gi, gn)"
  from assms obtain payload where
    p: "fetch e (request_url ep fid) = Inr payload" and
    pp: "process_payload e fid sid fn payload = Inr (?oc, pr)"
    by (auto simp: process_file_def process_file_body_def no_result_def dest: print_line_Inr
        split: sum.splits)
  from pp obtain raw tb where
    d: "decode e payload = Inr raw" and c: "read_csv e raw = Inr tb" and
    pf: "process_frame e fid sid fn (frame_of_table tb) = Inr (?oc, pr)"
    by (auto simp: process_payload_def load_frame_def split: sum.splits)
  from pf obtain df where
    ds: "drop_summary_rows (frame_of_table tb) = Inr df" and
    ex: "extract_columns e sid fn df = Inr (?oc, pr)"
    by (auto simp: process_frame_def no_result_def split: sum.splits if_splits)
  from drop_summary_rows_Inr[OF ds] have
    cols: "df_columns df = columns tb" and rws: "df_rows df = kept_rows tb"
    by (simp_all add: frame_of_table_def kept_rows_def)
  from extract_columns_Inr[OF ex] cols rws have
    "t = \<lparr>sname = sid, sitems = column_items ''tpm_unstranded'' tb (kept_rows tb)\<rparr>"
    "f = Some \<lparr>sname = sid, sitems = column_items ''fpkm_unstranded'' tb (kept_rows tb)\<rparr>"
    "u = Some \<lparr>sname = sid, sitems = column_items ''fpkm_uq_unstranded'' tb (kept_rows tb)\<rparr>"
    "gi = Some (map snd (column_items ''gene_id'' tb (kept_rows tb)))"
    "gn = Some (map snd (column_items ''gene_name'' tb (kept_rows tb)))"
    by (simp_all add: column_items_def comp_def case_prod_unfold)
  with p d c show ?thesis by blast
qed

text \<open>The loop of line 128 receives a tuple from every future exactly when no call raised.\<close>

lemma returned_all:
  assumes "\<forall>c \<in> set cs. \<exists>oc pr. c = Inr (oc, pr)"
  shows "\<exists>ocs. returned cs = Inr ocs \<and> length ocs = length cs"
  using assms
proof (induction cs)
  case Nil
  then show ?case by simp
next
  case (Cons c cs)
  from Cons.prems obtain oc pr where c: "c = Inr (oc, pr)" by auto
  from Cons obtain ocs where "returned cs = Inr ocs" "length ocs = length cs" by auto
  with c show ?case by simp
qed

text \<open>Printing and the table operations do not look at the fetch.\<close>

lemma print_line_fetch: "print_line (e\<lparr>fetch := f\<rparr>) line = print_line e line"
  by (simp add: print_line_def)

lemma process_frame_fetch:
  "process_frame (e\<lparr>fetch := f\<rparr>) fid sid fn df0 = process_frame e fid sid fn df0"
  by (simp add: process_frame_def extract_columns_def print_line_fetch
      cong: sum.case_cong if_cong)

section \<open>Claims about \<open>process_file\<close>\<close>

text \<open>
  Claim C1.  The claim is that the extraction ends in the \<open>Missing required columns\<close> outcome
  exactly when one of the five required columns is absent.  On a table without the \<open>gene_id\<close>
  column the row filter of line 29 reads that column before the check of line 32 is reached:
  the \<open>KeyError\<close> goes to the general handler, which prints \<open>Error processing file\<close> and not
  \<open>Missing required columns\<close>.  Nothing is extracted in either case.
\<close>

theorem missing_gene_id_is_not_reported_as_missing_column:
  "read_csv demo_env file_bad_text = Inr file_bad_table \<and>
   ''gene_id'' \<notin> set (columns file_bad_table) \<and>
   process_file demo_env ''f3'' ''TCGA-03'' ''bad.tsv'' DATA_ENDPOINT =
     Inr (no_result, [error_message ''f3'' (KeyError ''gene_id'')]) \<and>
   error_message ''f3'' (KeyError ''gene_id'') \<noteq> skip_message ''f3''"
  by (simp add: body_defs demo_defs error_message_def skip_message_def)




text \<open>
  Claim C4, as amended.  The decoder decompresses exactly when the payload starts with the bytes
  \<open>1F 8B\<close> and passes every other payload through unchanged.  For a payload \<open>P\<close> that does not
  itself start with these bytes, the call that receives a gzip stream \<open>G\<close> of \<open>P\<close> and the call
  that receives \<open>P\<close> return the same tuple and print the same line.
\<close>

theorem gzip_framing_is_transparent:
  assumes "\<not> is_gzipped P" and "is_gzipped G" and "gunzip e G = Inr P"
  shows "process_file (e\<lparr>fetch := \<lambda>u. Inr G\<rparr>) fid sid fn ep =
         process_file (e\<lparr>fetch := \<lambda>u. Inr P\<rparr>) fid sid fn ep \<and>
         (\<forall>p. decode e p = (if take 2 p = [CHR 0x1F, CHR 0x8B] then gunzip e p else Inr p))"
proof -
  have "decode e p = (if take 2 p = [CHR 0x1F, CHR 0x8B] then gunzip e p else Inr p)" for p
    by (simp add: decode_def is_gzipped_def startswith_def gzip_magic_def numeral_2_eq_2)
  moreover have "process_file (e\<lparr>fetch := \<lambda>u. Inr G\<rparr>) fid sid fn ep =
         process_file (e\<lparr>fetch := \<lambda>u. Inr P\<rparr>) fid sid fn ep"
    using assms
    by (simp add: process_file_def process_file_body_def process_payload_def load_frame_def
        decode_def process_frame_fetch print_line_fetch cong: sum.case_cong)
  ultimately show ?thesis by blast
qed

theorem gzip_framing_is_transparent_witness:
  "\<not> is_gzipped file_one_text \<and> is_gzipped gz_one \<and> gunzip demo_env gz_one = Inr file_one_text \<and>
   process_file (demo_env\<lparr>fetch := \<lambda>u. Inr gz_one\<rparr>) ''f4'' ''S'' ''n'' DATA_ENDPOINT =
   process_file (demo_env\<lparr>fetch := \<lambda>u. Inr file_one_text\<rparr>) ''f4'' ''S'' ''n'' DATA_ENDPOINT \<and>
   process_file (demo_env\<lparr>fetch := \<lambda>u. Inr gz_one\<rparr>) ''f4'' ''S'' ''n'' DATA_ENDPOINT =
     Inr ((Some \<lparr>sname = ''S'', sitems = [(0, Num ''1.0'')]\<rparr>,
           Some \<lparr>sname = ''S'', sitems = [(0, Num ''2.0'')]\<rparr>,
           Some \<lparr>sname = ''S'', sitems = [(0, Num ''3.0'')]\<rparr>,
           Some [Str ''ENSG1''], Some [Str ''A'']), [processed_message ''n'' ''S''])"
proof -
  have h1: "\<not> is_gzipped file_one_text"
    by (simp add: demo_defs body_defs)
  have h2: "is_gzipped gz_one"
    by (simp add: demo_defs body_defs)
  have h3: "gunzip demo_env gz_one = Inr file_one_text"
    by (simp add: demo_env_def demo_gunzip_def)
  have v: "process_file (demo_env\<lparr>fetch := \<lambda>u. Inr file_one_text\<rparr>) ''f4'' ''S'' ''n''
             DATA_ENDPOINT =
     Inr ((Some \<lparr>sname = ''S'', sitems = [(0, Num ''1.0'')]\<rparr>,
           Some \<lparr>sname = ''S'', sitems = [(0, Num ''2.0'')]\<rparr>,
           Some \<lparr>sname = ''S'', sitems = [(0, Num ''3.0'')]\<rparr>,
           Some [Str ''ENSG1''], Some [Str ''A'']), [processed_message ''n'' ''S''])"
    by (simp add: body_defs demo_defs processed_message_def)
  from gzip_framing_is_transparent[OF h1 h2 h3] h1 h2 h3 v show ?thesis by simp
qed

text \<open>
  Claim C4 as stated fails on a payload that is itself a gzip stream: the call that receives
  \<open>gz_one\<close> decompresses it and extracts the gene, the call that receives the gzip stream of
  \<open>gz_one\<close> decompresses once, hands compressed bytes to the parser and returns nothing.
\<close>

theorem gzip_of_gzip_counterexample:
  "is_gzipped gz_gz_one \<and> gunzip demo_env gz_gz_one = Inr gz_one \<and>
   process_file (demo_env\<lparr>fetch := \<lambda>u. Inr gz_gz_one\<rparr>) ''f5'' ''S'' ''n'' DATA_ENDPOINT =
     Inr (no_result, [error_message ''f5'' (LibraryError ''codec cannot decode byte 0x8b'')]) \<and>
   process_file (demo_env\<lparr>fetch := \<lambda>u. Inr gz_one\<rparr>) ''f5'' ''S'' ''n'' DATA_ENDPOINT =
     Inr ((Some \<lparr>sname = ''S'', sitems = [(0, Num ''1.0'')]\<rparr>,
           Some \<lparr>sname = ''S'', sitems = [(0, Num ''2.0'')]\<rparr>,
           Some \<lparr>sname = ''S'', sitems = [(0, Num ''3.0'')]\<rparr>,
           Some [Str ''ENSG1''], Some [Str ''A'']), [processed_message ''n'' ''S''])"
  by (simp add: body_defs demo_defs processed_message_def error_message_def)



section \<open>Facts about the collecting loop and the matrices\<close>

lemma collect_step_tpm:
  "tpm_data (collect_step acc oc) = tpm_data acc @ (case fst oc of None \<Rightarrow> [] | Some t \<Rightarrow> [t])"
  by (cases oc) (auto simp: Let_def split: option.splits)

lemma collect_step_fpkm:
  "fpkm_data (collect_step acc oc) = fpkm_data acc @ (if succeeded oc then [fst (snd oc)] else [])"
  by (cases oc) (auto simp: Let_def succeeded_def split: option.splits)

lemma collect_step_fpkm_uq:
  "fpkm_uq_data (collect_step acc oc) =
     fpkm_uq_data acc @ (if succeeded oc then [fst (snd (snd oc))] else [])"
  by (cases oc) (auto simp: Let_def succeeded_def split: option.splits)

lemma foldl_collect_tpm:
  "tpm_data (foldl collect_step acc rs) = tpm_data acc @ map (the \<circ> fst) (filter succeeded rs)"
  by (induction rs arbitrary: acc) (auto simp: collect_step_tpm succeeded_def split: option.splits)

lemma foldl_collect_fpkm:
  "fpkm_data (foldl collect_step acc rs) = fpkm_data acc @ map (fst \<circ> snd) (filter succeeded rs)"
  by (induction rs arbitrary: acc) (auto simp: collect_step_fpkm)

lemma foldl_collect_fpkm_uq:
  "fpkm_uq_data (foldl collect_step acc rs) =
     fpkm_uq_data acc @ map (fst \<circ> snd \<circ> snd) (filter succeeded rs)"
  by (induction rs arbitrary: acc) (auto simp: collect_step_fpkm_uq)

lemma collect_tpm: "tpm_data (collect rs) = map (the \<circ> fst) (filter succeeded rs)"
  by (simp add: collect_def foldl_collect_tpm empty_accumulators_def)

lemma collect_fpkm: "fpkm_data (collect rs) = map (fst \<circ> snd) (filter succeeded rs)"
  by (simp add: collect_def foldl_collect_fpkm empty_accumulators_def)

lemma collect_fpkm_uq: "fpkm_uq_data (collect rs) = map (fst \<circ> snd \<circ> snd) (filter succeeded rs)"
  by (simp add: collect_def foldl_collect_fpkm_uq empty_accumulators_def)

text \<open>The gene axis is taken from the first result that counts, once, and then kept.\<close>

lemma foldl_collect_axis_kept:
  assumes "new_gene_ids acc \<noteq> None"
  shows "new_gene_ids (foldl collect_step acc rs) = new_gene_ids acc \<and>
         new_gene_names (foldl collect_step acc rs) = new_gene_names acc"
  using assms
proof (induction rs arbitrary: acc)
  case Nil
  then show ?case by simp
next
  case (Cons oc rs)
  have "new_gene_ids (collect_step acc oc) = new_gene_ids acc \<and>
        new_gene_names (collect_step acc oc) = new_gene_names acc"
    using Cons.prems by (cases oc) (auto simp: Let_def split: option.splits)
  with Cons show ?case by simp
qed

lemma foldl_collect_axis:
  assumes "new_gene_ids acc = None"
    and "\<forall>oc \<in> set rs. succeeded oc \<longrightarrow> fst (snd (snd (snd oc))) \<noteq> None"
  shows "new_gene_ids (foldl collect_step acc rs) =
           (case filter succeeded rs of [] \<Rightarrow> None | oc # _ \<Rightarrow> fst (snd (snd (snd oc)))) \<and>
         new_gene_names (foldl collect_step acc rs) =
           (case filter succeeded rs of [] \<Rightarrow> new_gene_names acc | oc # _ \<Rightarrow> snd (snd (snd (snd oc))))"
  using assms
proof (induction rs arbitrary: acc)
  case Nil
  then show ?case by simp
next
  case (Cons oc rs)
  show ?case
  proof (cases "succeeded oc")
    case False
    then have "collect_step acc oc = acc"
      by (cases oc) (auto simp: succeeded_def)
    with False Cons show ?thesis by simp
  next
    case True
    with Cons.prems obtain t f u gi gn where oc: "oc = (Some t, f, u, Some gi, gn)"
      by (cases oc) (auto simp: succeeded_def)
    with Cons.prems have "new_gene_ids (collect_step acc oc) = Some gi"
      and "new_gene_names (collect_step acc oc) = gn"
      by (auto simp: Let_def)
    with foldl_collect_axis_kept[of "collect_step acc oc" rs] True oc show ?thesis
      by simp
  qed
qed

lemma collect_axis:
  assumes "\<forall>oc \<in> set rs. succeeded oc \<longrightarrow> fst (snd (snd (snd oc))) \<noteq> None"
  shows "new_gene_ids (collect rs) =
           (case filter succeeded rs of [] \<Rightarrow> None | oc # _ \<Rightarrow> fst (snd (snd (snd oc))))"
    and "new_gene_names (collect rs) =
           (case filter succeeded rs of [] \<Rightarrow> None | oc # _ \<Rightarrow> snd (snd (snd (snd oc))))"
proof -
  have e: "new_gene_ids empty_accumulators = None" "new_gene_names empty_accumulators = None"
    by (simp_all add: empty_accumulators_def)
  from foldl_collect_axis[OF e(1) assms] e(2) show
    "new_gene_ids (collect rs) =
           (case filter succeeded rs of [] \<Rightarrow> None | oc # _ \<Rightarrow> fst (snd (snd (snd oc))))"
    and "new_gene_names (collect rs) =
           (case filter succeeded rs of [] \<Rightarrow> None | oc # _ \<Rightarrow> snd (snd (snd (snd oc))))"
    by (simp_all add: collect_def split: list.splits)
qed

text \<open>Every tuple that \<open>process_file\<close> returns is of one sample.\<close>

lemma distinct_index_kept_rows: "distinct (map fst (kept_rows tb))"
  unfolding kept_rows_def by (rule distinct_map_filter) (simp add: map_fst_enumerate)

lemma process_file_same_sample:
  assumes "process_file e fid sid fn ep = Inr (oc, pr)"
  shows "same_sample oc"
proof -
  from process_file_shape[OF assms] have
    sh: "oc = no_result \<or> (\<exists>t f u gi gn. oc = (Some t, Some f, Some u, Some gi, Some gn))"
    by (rule conjunct2)
  from sh show ?thesis
  proof
    assume "oc = no_result"
    then show ?thesis by (simp add: no_result_def)
  next
    assume "\<exists>t f u gi gn. oc = (Some t, Some f, Some u, Some gi, Some gn)"
    then obtain t f u gi gn where oc: "oc = (Some t, Some f, Some u, Some gi, Some gn)" by blast
    with assms have
      "process_file e fid sid fn ep = Inr ((Some t, Some f, Some u, Some gi, Some gn), pr)"
      by simp
    from process_file_success[OF this] obtain tb where
      "t = \<lparr>sname = sid, sitems = column_items ''tpm_unstranded'' tb (kept_rows tb)\<rparr>"
      "f = \<lparr>sname = sid, sitems = column_items ''fpkm_unstranded'' tb (kept_rows tb)\<rparr>"
      "u = \<lparr>sname = sid, sitems = column_items ''fpkm_uq_unstranded'' tb (kept_rows tb)\<rparr>"
      "gi = map snd (column_items ''gene_id'' tb (kept_rows tb))"
      "gn = map snd (column_items ''gene_name'' tb (kept_rows tb))"
      by auto
    with oc show ?thesis
      by (simp add: series_index_def map_fst_column_items distinct_index_kept_rows)
        (simp add: column_items_def)
  qed
qed

text \<open>What the loop has received when no \<open>future.result()\<close> raised.\<close>

lemma returned_Inr:
  assumes "returned cs = Inr ocs"
  shows "ocs = map (\<lambda>c. fst (projr c)) cs \<and> (\<forall>c \<in> set cs. \<not> isl c)"
  using assms
proof (induction cs arbitrary: ocs)
  case Nil
  then show ?case by simp
next
  case (Cons c cs)
  show ?case
  proof (cases c)
    case (Inl x)
    with Cons.prems show ?thesis by simp
  next
    case (Inr r)
    obtain oc pr where r: "r = (oc, pr)" by (rule prod.exhaust)
    with Inr Cons.prems obtain ocs' where
      t: "returned cs = Inr ocs'" and o: "ocs = oc # ocs'"
      by (auto split: sum.splits)
    from Cons.IH[OF t] Inr r o show ?thesis by simp
  qed
qed

lemma not_isl_result:
  assumes "\<not> isl c"
  obtains oc pr where "c = Inr (oc, pr)"
proof (cases c)
  case (Inl x)
  with assms show ?thesis by simp
next
  case (Inr r)
  obtain oc pr where "r = (oc, pr)" by (rule prod.exhaust)
  with Inr that show ?thesis by simp
qed

lemma returned_Inl:
  assumes "returned cs = Inl x"
  shows "Inl x \<in> set cs"
  using assms
proof (induction cs)
  case Nil
  then show ?case by simp
next
  case (Cons c cs)
  show ?case
  proof (cases c)
    case (Inl y)
    with Cons.prems show ?thesis by simp
  next
    case (Inr r)
    obtain oc pr where r: "r = (oc, pr)" by (rule prod.exhaust)
    with Inr Cons.prems have "returned cs = Inl x" by (auto split: sum.splits)
    with Cons.IH show ?thesis by simp
  qed
qed

lemma pipeline_returned:
  assumes "returned (concurrent_pipeline e sch w g) = Inr ocs"
  shows "ocs = map (\<lambda>r. fst (projr (run_record e r))) (sch w g)"
    and "\<forall>r \<in> set (sch w g). \<not> isl (run_record e r)"
    and "filter succeeded ocs =
           map (\<lambda>r. fst (projr (run_record e r)))
             (filter (\<lambda>r. result_counts (run_record e r)) (sch w g))"
proof -
  from returned_Inr[OF assms] show
    a: "ocs = map (\<lambda>r. fst (projr (run_record e r))) (sch w g)"
    and b: "\<forall>r \<in> set (sch w g). \<not> isl (run_record e r)"
    by (simp_all add: concurrent_pipeline_def comp_def)
  have "filter (\<lambda>r. succeeded (fst (projr (run_record e r)))) (sch w g) =
        filter (\<lambda>r. result_counts (run_record e r)) (sch w g)"
  proof (rule filter_cong[OF refl])
    fix r assume "r \<in> set (sch w g)"
    with b have "\<not> isl (run_record e r)" by blast
    then obtain oc pr where "run_record e r = Inr (oc, pr)" by (rule not_isl_result)
    then show "succeeded (fst (projr (run_record e r))) = result_counts (run_record e r)"
      by simp
  qed
  with a show "filter succeeded ocs =
           map (\<lambda>r. fst (projr (run_record e r)))
             (filter (\<lambda>r. result_counts (run_record e r)) (sch w g))"
    by (simp add: filter_map comp_def)
qed

lemma pipeline_same_sample:
  assumes "returned (concurrent_pipeline e sch w g) = Inr ocs"
  shows "\<forall>oc \<in> set ocs. same_sample oc"
proof
  fix oc assume "oc \<in> set ocs"
  with pipeline_returned(1)[OF assms] obtain r where
    r: "r \<in> set (sch w g)" and oc: "oc = fst (projr (run_record e r))"
    by auto
  from pipeline_returned(2)[OF assms] r have "\<not> isl (run_record e r)" by blast
  then obtain oc' pr where c: "run_record e r = Inr (oc', pr)" by (rule not_isl_result)
  with oc have "oc' = oc" by simp
  with c have "process_file e (file_id r) (sample_barcode r) (file_name r) DATA_ENDPOINT =
      Inr (oc, pr)"
    by (simp add: run_record_def)
  then show "same_sample oc" by (rule process_file_same_sample)
qed

lemma same_sample_succeeded:
  assumes "same_sample oc" and "succeeded oc"
  obtains t f u gi gn where "oc = (Some t, Some f, Some u, Some gi, Some gn)"
    and "sname f = sname t" and "sname u = sname t"
    and "series_index f = series_index t" and "series_index u = series_index t"
    and "length gi = length (sitems t)" and "length gn = length (sitems t)"
    and "distinct (series_index t)"
  using assms by (cases oc rule: same_sample.cases) (auto simp: succeeded_def)

lemma map_filter_id_Some: "List.map_filter (\<lambda>x. x) (map Some xs) = xs"
  by (induction xs) (auto simp: List.map_filter_simps)

lemma map_filter_id_all_Some:
  assumes "\<forall>x \<in> set xs. f x \<noteq> None"
  shows "List.map_filter (\<lambda>x. x) (map f xs) = map (the \<circ> f) xs"
  using assms by (induction xs) (auto simp: List.map_filter_simps)

lemma concat_axis1_labels:
  assumes "concat_axis1 objs = Inr m"
  shows "map fst (mx_columns m) = map sname (List.map_filter (\<lambda>x. x) objs)"
  using assms by (auto simp: concat_axis1_def Let_def comp_def split: if_splits)

lemma insert0_labels:
  assumes "insert0 label v m = Inr m'"
  shows "map fst (mx_columns m') = label # map fst (mx_columns m)"
  using assms by (auto simp: insert0_def split: if_splits option.splits)

lemma finalize_Saved:
  assumes "finalize acc = Inr (Saved tm fm um)"
  shows "tpm_data acc \<noteq> [] \<and>
         map fst (mx_columns tm) = ''gene_id'' # ''gene_name'' # map sname (tpm_data acc) \<and>
         map fst (mx_columns fm) =
           ''gene_id'' # ''gene_name'' # map sname (List.map_filter (\<lambda>x. x) (fpkm_data acc)) \<and>
         map fst (mx_columns um) =
           ''gene_id'' # ''gene_name'' # map sname (List.map_filter (\<lambda>x. x) (fpkm_uq_data acc))"
proof -
  from assms have ne: "tpm_data acc \<noteq> []"
    by (auto simp: finalize_def split: if_splits)
  with assms obtain tm0 fm0 um0 tm1 fm1 um1 where
    c: "concat_axis1 (map Some (tpm_data acc)) = Inr tm0"
       "concat_axis1 (fpkm_data acc) = Inr fm0"
       "concat_axis1 (fpkm_uq_data acc) = Inr um0" and
    i: "insert0 ''gene_name'' (new_gene_names acc) tm0 = Inr tm1"
       "insert0 ''gene_id'' (new_gene_ids acc) tm1 = Inr tm"
       "insert0 ''gene_name'' (new_gene_names acc) fm0 = Inr fm1"
       "insert0 ''gene_id'' (new_gene_ids acc) fm1 = Inr fm"
       "insert0 ''gene_name'' (new_gene_names acc) um0 = Inr um1"
       "insert0 ''gene_id'' (new_gene_ids acc) um1 = Inr um"
    by (auto simp: finalize_def split: sum.splits)
  from c i ne show ?thesis
    by (simp add: insert0_labels concat_axis1_labels map_filter_id_Some)
qed

lemma finalize_empty: "tpm_data acc = [] \<Longrightarrow> finalize acc = Inr NoValidData"
  by (simp add: finalize_def)

lemma series_at_index:
  assumes "distinct (series_index s)"
  shows "map (series_at s) (series_index s) = map snd (sitems s)"
proof -
  have "series_at s (fst x) = snd x" if "x \<in> set (sitems s)" for x
  proof -
    from that assms have "map_of (sitems s) (fst x) = Some (snd x)"
      by (simp add: series_index_def)
    then show ?thesis by (simp add: series_at_def)
  qed
  then show ?thesis by (simp add: series_index_def)
qed

lemma concat_axis1_single:
  assumes "distinct (series_index s)"
  shows "concat_axis1 [Some s] =
           Inr \<lparr>mx_index = series_index s, mx_columns = [(sname s, map snd (sitems s))]\<rparr>"
  using assms
  by (simp add: concat_axis1_def List.map_filter_simps series_at_index union_index_def)

lemma build_single:
  assumes "distinct (series_index s)" and "length gi = length (sitems s)"
    and "length gn = length (sitems s)" and "sname s \<noteq> ''gene_id''" and "sname s \<noteq> ''gene_name''"
  shows "\<exists>m0 m1. concat_axis1 [Some s] = Inr m0 \<and> insert0 ''gene_name'' (Some gn) m0 = Inr m1 \<and>
           insert0 ''gene_id'' (Some gi) m1 =
             Inr \<lparr>mx_index = series_index s,
                  mx_columns = [(''gene_id'', gi), (''gene_name'', gn), (sname s, map snd (sitems s))]\<rparr>"
  using assms
  by (simp add: concat_axis1_single insert0_def series_index_def)

lemma same_sample_SomeD:
  assumes "same_sample (Some t, f, u, gi, gn)"
  shows "\<exists>f' u' gi' gn'.
           f = Some f' \<and> u = Some u' \<and> gi = Some gi' \<and> gn = Some gn' \<and>
           sname f' = sname t \<and> sname u' = sname t \<and>
           series_index f' = series_index t \<and> series_index u' = series_index t \<and>
           length gi' = length (sitems t) \<and> length gn' = length (sitems t) \<and>
           distinct (series_index t)"
  using assms by (cases f; cases u; cases gi; cases gn) auto

lemma succeeded_label:
  assumes "run_record e r = Inr (oc, pr)" and "succeeded oc"
  shows "sname (the (fst oc)) = sample_barcode r"
proof -
  from assms(2) obtain t f u gi gn where oc: "oc = (Some t, f, u, gi, gn)"
    by (cases oc) (auto simp: succeeded_def)
  with assms(1) have
    "process_file e (file_id r) (sample_barcode r) (file_name r) DATA_ENDPOINT =
       Inr ((Some t, f, u, gi, gn), pr)"
    by (simp add: run_record_def)
  from process_file_success[OF this] oc show ?thesis
    by auto
qed

text \<open>The pool hands every submitted call to the loop, once.\<close>

lemma remove_nth_mset:
  "i < length xs \<Longrightarrow> add_mset (xs ! i) (mset (take i xs @ drop (Suc i) xs)) = mset xs"
proof -
  assume "i < length xs"
  then have "xs = take i xs @ xs ! i # drop (Suc i) xs" by (rule id_take_nth_drop)
  then have "mset xs = mset (take i xs @ xs ! i # drop (Suc i) xs)" by simp
  then show ?thesis by simp
qed


lemma pool_order_done:
  assumes "running @ take (w - length running) pending = []" and "finished = []"
  shows "pool_order choice w step pending running finished = []"
  by (subst pool_order.simps) (simp only: Let_def assms simp_thms if_True)

lemma pool_order_finish:
  assumes "r = running @ take (w - length running) pending"
    and "r \<noteq> []" and "fst (choice step) \<or> finished = []"
  shows "pool_order choice w step pending running finished =
         pool_order choice w (Suc step) (drop (w - length running) pending)
           (take (snd (choice step) mod length r) r @ drop (Suc (snd (choice step) mod length r)) r)
           (finished @ [r ! (snd (choice step) mod length r)])"
proof -
  have c1: "\<not> (running @ take (w - length running) pending = [] \<and> finished = [])"
    using assms(1,2) by simp
  have c2: "running @ take (w - length running) pending \<noteq> [] \<and>
            (fst (choice step) \<or> finished = [])"
    using assms by simp
  show ?thesis
    unfolding assms(1)
    by (subst pool_order.simps) (simp only: Let_def c1 c2 if_True if_False simp_thms)
qed

lemma pool_order_yield:
  assumes "finished \<noteq> []"
    and "\<not> (running @ take (w - length running) pending \<noteq> [] \<and>
            (fst (choice step) \<or> finished = []))"
  shows "pool_order choice w step pending running finished =
         finished ! (snd (choice step) mod length finished) #
         pool_order choice w (Suc step) (drop (w - length running) pending)
           (running @ take (w - length running) pending)
           (take (snd (choice step) mod length finished) finished @
            drop (Suc (snd (choice step) mod length finished)) finished)"
proof -
  have c1: "\<not> (running @ take (w - length running) pending = [] \<and> finished = [])"
    using assms(1) by simp
  show ?thesis
    by (subst pool_order.simps) (simp only: Let_def c1 assms(2) if_True if_False simp_thms)
qed


lemma mset_pool_order:
  "0 < w \<Longrightarrow> mset (pool_order choice w step pending running finished) =
     mset pending + mset running + mset finished"
proof (induction choice w step pending running finished rule: pool_order.induct)
  case (1 choice w step pending running finished)
  define r where "r = running @ take (w - length running) pending"
  define p where "p = drop (w - length running) pending"
  have "mset (take (w - length running) pending) + mset p = mset pending"
    unfolding p_def by (simp only: mset_append[symmetric] append_take_drop_id)
  then have rp: "mset p + mset r = mset pending + mset running"
    unfolding r_def by (simp add: ac_simps)
  show ?case
  proof (cases "r = [] \<and> finished = []")
    case True
    then have a: "running @ take (w - length running) pending = []"
      unfolding r_def by (rule conjunct1)
    then have rn: "running = []" by simp
    from a have "take (w - length running) pending = []"
      unfolding append_is_Nil_conv by (rule conjunct2)
    then have "take w pending = []" unfolding rn by simp
    with \<open>0 < w\<close> have "pending = []" by simp
    moreover have "pool_order choice w step pending running finished = []"
      by (rule pool_order_done[OF a conjunct2[OF True]])
    ultimately show ?thesis using True rn by simp
  next
    case False
    show ?thesis
    proof (cases "r \<noteq> [] \<and> (fst (choice step) \<or> finished = [])")
      case T: True
      define i where "i = snd (choice step) mod length r"
      from T have il: "i < length r" by (simp add: i_def)
      from T have "pool_order choice w step pending running finished =
            pool_order choice w (Suc step) p (take i r @ drop (Suc i) r) (finished @ [r ! i])"
        unfolding p_def i_def by (intro pool_order_finish[OF r_def]) simp_all
      then have "mset (pool_order choice w step pending running finished) =
            mset (pool_order choice w (Suc step) p (take i r @ drop (Suc i) r) (finished @ [r ! i]))"
        by (rule arg_cong)
      also have "\<dots> = mset p + mset (take i r @ drop (Suc i) r) + mset (finished @ [r ! i])"
        using "1.IH"(1)[OF r_def p_def False T i_def \<open>0 < w\<close>] .
      also have "\<dots> = mset p + add_mset (r ! i) (mset (take i r @ drop (Suc i) r)) + mset finished"
        by simp
      also have "\<dots> = mset p + mset r + mset finished"
        by (simp only: remove_nth_mset[OF il])
      finally show ?thesis using rp by simp
    next
      case F: False
      define j where "j = snd (choice step) mod length finished"
      from False F have fne: "finished \<noteq> []" by blast
      then have jl: "j < length finished" by (simp add: j_def)
      from F have F': "\<not> (running @ take (w - length running) pending \<noteq> [] \<and>
            (fst (choice step) \<or> finished = []))"
        unfolding r_def .
      have "pool_order choice w step pending running finished =
            finished ! j #
            pool_order choice w (Suc step) p r (take j finished @ drop (Suc j) finished)"
        unfolding p_def r_def j_def
        using fne F'
        by (rule pool_order_yield[where choice = choice and w = w and step = step
              and pending = pending and running = running and finished = finished])
      then have "mset (pool_order choice w step pending running finished) =
            add_mset (finished ! j)
              (mset (pool_order choice w (Suc step) p r (take j finished @ drop (Suc j) finished)))"
        by simp
      also have "\<dots> = add_mset (finished ! j)
              (mset p + mset r + mset (take j finished @ drop (Suc j) finished))"
        by (simp only: "1.IH"(2)[OF r_def p_def False F j_def \<open>0 < w\<close>])
      also have "\<dots> = mset p + mset r +
              add_mset (finished ! j) (mset (take j finished @ drop (Suc j) finished))"
        by simp
      also have "\<dots> = mset p + mset r + mset finished"
        by (simp only: remove_nth_mset[OF jl])
      finally show ?thesis using rp by simp
    qed
  qed
qed

lemma mset_as_completed: "0 < w \<Longrightarrow> mset (as_completed choice w group_df) = mset group_df"
  by (simp add: as_completed_def mset_pool_order)

section \<open>Concrete runs of the small site\<close>

lemmas group_defs = run_group_def aggregate_def collect_def concurrent_pipeline_def run_record_def
  max_workers_def in_order_def reversed_def empty_accumulators_def finalize_def concat_axis1_def
  insert0_def union_index_def series_index_def series_at_def List.map_filter_simps
  rec_one_def rec_two_def rec_bad_def rec_named_gene_id_def rec_other_def

lemma group_one:
  "run_group demo_env in_order [rec_one] =
     Inr (Saved
       \<lparr>mx_index = [0],
        mx_columns = [(''gene_id'', [Str ''ENSG1'']), (''gene_name'', [Str ''A'']),
                      (''TCGA-01'', [Num ''1.0''])]\<rparr>
       \<lparr>mx_index = [0],
        mx_columns = [(''gene_id'', [Str ''ENSG1'']), (''gene_name'', [Str ''A'']),
                      (''TCGA-01'', [Num ''2.0''])]\<rparr>
       \<lparr>mx_index = [0],
        mx_columns = [(''gene_id'', [Str ''ENSG1'']), (''gene_name'', [Str ''A'']),
                      (''TCGA-01'', [Num ''3.0''])]\<rparr>)"
  by (simp add: group_defs run_one)

lemma group_two_then_one:
  "run_group demo_env reversed [rec_one, rec_two] =
     Inr (Saved
       \<lparr>mx_index = [0, 2],
        mx_columns = [(''gene_id'', [Str ''ENSG1'', Str ''ENSG2'']),
                      (''gene_name'', [Str ''A'', Str ''B'']),
                      (''TCGA-02'', [Num ''4.0'', Num ''7.0'']),
                      (''TCGA-01'', [Num ''1.0'', NaN])]\<rparr>
       \<lparr>mx_index = [0, 2],
        mx_columns = [(''gene_id'', [Str ''ENSG1'', Str ''ENSG2'']),
                      (''gene_name'', [Str ''A'', Str ''B'']),
                      (''TCGA-02'', [Num ''5.0'', Num ''8.0'']),
                      (''TCGA-01'', [Num ''2.0'', NaN])]\<rparr>
       \<lparr>mx_index = [0, 2],
        mx_columns = [(''gene_id'', [Str ''ENSG1'', Str ''ENSG2'']),
                      (''gene_name'', [Str ''A'', Str ''B'']),
                      (''TCGA-02'', [Num ''6.0'', Num ''9.0'']),
                      (''TCGA-01'', [Num ''3.0'', NaN])]\<rparr>)"
  by (simp add: group_defs run_one run_two)

lemma group_one_then_two:
  "run_group demo_env in_order [rec_one, rec_two] =
     Inl (ValueError ''Length of values does not match length of index'')"
  by (simp add: group_defs run_one run_two)

lemma group_two_bad:
  "run_group demo_env in_order [rec_two, rec_bad] =
     Inr (Saved
       \<lparr>mx_index = [0, 2],
        mx_columns = [(''gene_id'', [Str ''ENSG1'', Str ''ENSG2'']),
                      (''gene_name'', [Str ''A'', Str ''B'']),
                      (''TCGA-02'', [Num ''4.0'', Num ''7.0''])]\<rparr>
       \<lparr>mx_index = [0, 2],
        mx_columns = [(''gene_id'', [Str ''ENSG1'', Str ''ENSG2'']),
                      (''gene_name'', [Str ''A'', Str ''B'']),
                      (''TCGA-02'', [Num ''5.0'', Num ''8.0''])]\<rparr>
       \<lparr>mx_index = [0, 2],
        mx_columns = [(''gene_id'', [Str ''ENSG1'', Str ''ENSG2'']),
                      (''gene_name'', [Str ''A'', Str ''B'']),
                      (''TCGA-02'', [Num ''6.0'', Num ''9.0''])]\<rparr>)"
  by (simp add: group_defs run_two run_bad no_result_def)

lemma group_bad: "run_group demo_env in_order [rec_bad] = Inr NoValidData"
  by (simp add: group_defs run_bad no_result_def)

lemma group_named_gene_id:
  "run_group demo_env in_order [rec_named_gene_id] =
     Inl (ValueError ''cannot insert gene_id, already exists'')"
  by (simp add: group_defs run_one)

text \<open>Two runs of the pool of size 25 over the small site.\<close>

lemma pool_first_done:
  "as_completed first_done 25 [rec_one, rec_unprintable] = [rec_one, rec_unprintable]"
  by (simp add: as_completed_def pool_order.simps first_done_def Let_def)

lemma pool_all_done_first:
  "as_completed all_done_first 25 [rec_one, rec_bad, rec_two] = [rec_two, rec_one, rec_bad]"
  by (simp add: as_completed_def pool_order.simps all_done_first_def Let_def)

section \<open>Claims about the pool and the matrices\<close>

text \<open>
  Claim C3, as amended.  For every pool size from one on and every run of the pool, the futures
  that the loop receives hold the results of the submitted calls, each of them once.  When none
  of the \<open>N\<close> calls of a batch raises and \<open>K\<close> of them return the tuple of five \<open>None\<close>, the loop
  receives \<open>N\<close> tuples, of which \<open>N - K\<close> count as successes, and it appends exactly \<open>N - K\<close>
  series.
\<close>

theorem pool_yields_every_result_once:
  assumes "0 < w" and "\<forall>r \<in> set g. \<exists>res. run_record e r = Inr res"
  shows "mset (concurrent_pipeline e (as_completed choice) w g) = mset (map (run_record e) g) \<and>
         (\<exists>ocs. returned (concurrent_pipeline e (as_completed choice) w g) = Inr ocs \<and>
            length ocs = length g \<and>
            length (filter succeeded ocs) =
              length g - length (filter (\<lambda>r. \<not> result_counts (run_record e r)) g) \<and>
            length (tpm_data (collect ocs)) =
              length g - length (filter (\<lambda>r. \<not> result_counts (run_record e r)) g))"
proof -
  let ?sch = "as_completed choice"
  let ?ok = "\<lambda>r. result_counts (run_record e r)"
  have perm: "mset (?sch w g) = mset g"
    using assms(1) by (rule mset_as_completed)
  then have m: "mset (concurrent_pipeline e ?sch w g) = mset (map (run_record e) g)"
    by (simp add: concurrent_pipeline_def)
  from perm have sets: "set (?sch w g) = set g" by (rule mset_eq_setD)
  have "\<forall>c \<in> set (concurrent_pipeline e ?sch w g). \<exists>oc pr. c = Inr (oc, pr)"
  proof
    fix c assume "c \<in> set (concurrent_pipeline e ?sch w g)"
    with sets obtain r where "r \<in> set g" and c: "c = run_record e r"
      by (auto simp: concurrent_pipeline_def)
    with assms(2) obtain res where "run_record e r = Inr res" by blast
    moreover obtain oc pr where "res = (oc, pr)" by (rule prod.exhaust)
    ultimately have "c = Inr (oc, pr)" using c by simp
    then show "\<exists>oc pr. c = Inr (oc, pr)" by (intro exI)
  qed
  from returned_all[OF this] obtain ocs where
    ret: "returned (concurrent_pipeline e ?sch w g) = Inr ocs" and
    len0: "length ocs = length (concurrent_pipeline e ?sch w g)"
    by blast
  have len: "length (?sch w g) = length g"
    using perm by (metis size_mset)
  have "mset (filter ?ok (?sch w g)) = mset (filter ?ok g)"
    using perm by (metis mset_filter)
  then have ok: "length (filter ?ok (?sch w g)) = length (filter ?ok g)"
    by (metis size_mset)
  have split: "length (filter ?ok g) = length g - length (filter (\<lambda>r. \<not> ?ok r) g)"
    using sum_length_filter_compl[of ?ok g] by simp
  have a: "length (filter succeeded ocs) = length (filter ?ok (?sch w g))"
    using pipeline_returned(3)[OF ret] by simp
  have b: "length (tpm_data (collect ocs)) = length (filter ?ok (?sch w g))"
    using a by (simp add: collect_tpm)
  from len0 len have l: "length ocs = length g"
    by (simp add: concurrent_pipeline_def)
  from ret l a b ok split have
    "returned (concurrent_pipeline e ?sch w g) = Inr ocs \<and>
     length ocs = length g \<and>
     length (filter succeeded ocs) =
       length g - length (filter (\<lambda>r. \<not> result_counts (run_record e r)) g) \<and>
     length (tpm_data (collect ocs)) =
       length g - length (filter (\<lambda>r. \<not> result_counts (run_record e r)) g)"
    by simp
  then have "\<exists>ocs. returned (concurrent_pipeline e ?sch w g) = Inr ocs \<and>
     length ocs = length g \<and>
     length (filter succeeded ocs) =
       length g - length (filter (\<lambda>r. \<not> result_counts (run_record e r)) g) \<and>
     length (tpm_data (collect ocs)) =
       length g - length (filter (\<lambda>r. \<not> result_counts (run_record e r)) g)"
    by (rule exI)
  with m show ?thesis by (rule conjI)
qed

theorem pool_yields_every_result_once_witness:
  "(0::nat) < 25 \<and>
   run_record demo_env rec_one =
     Inr ((Some \<lparr>sname = ''TCGA-01'', sitems = [(0, Num ''1.0'')]\<rparr>,
           Some \<lparr>sname = ''TCGA-01'', sitems = [(0, Num ''2.0'')]\<rparr>,
           Some \<lparr>sname = ''TCGA-01'', sitems = [(0, Num ''3.0'')]\<rparr>,
           Some [Str ''ENSG1''], Some [Str ''A'']), [processed_message ''one.tsv'' ''TCGA-01'']) \<and>
   run_record demo_env rec_bad =
     Inr (no_result, [error_message ''f3'' (KeyError ''gene_id'')]) \<and>
   run_record demo_env rec_two =
     Inr ((Some \<lparr>sname = ''TCGA-02'', sitems = [(0, Num ''4.0''), (2, Num ''7.0'')]\<rparr>,
           Some \<lparr>sname = ''TCGA-02'', sitems = [(0, Num ''5.0''), (2, Num ''8.0'')]\<rparr>,
           Some \<lparr>sname = ''TCGA-02'', sitems = [(0, Num ''6.0''), (2, Num ''9.0'')]\<rparr>,
           Some [Str ''ENSG1'', Str ''ENSG2''], Some [Str ''A'', Str ''B'']),
          [processed_message ''two.tsv'' ''TCGA-02'']) \<and>
   as_completed all_done_first 25 [rec_one, rec_bad, rec_two] = [rec_two, rec_one, rec_bad] \<and>
   mset (concurrent_pipeline demo_env (as_completed all_done_first) 25 [rec_one, rec_bad, rec_two]) =
     mset (map (run_record demo_env) [rec_one, rec_bad, rec_two]) \<and>
   (\<exists>ocs. returned (concurrent_pipeline demo_env (as_completed all_done_first) 25
             [rec_one, rec_bad, rec_two]) = Inr ocs \<and>
      length ocs = 3 \<and> length (filter succeeded ocs) = 2 \<and>
      length (tpm_data (collect ocs)) = 2)"
proof -
  have w: "(0::nat) < 25" by simp
  have r1: "run_record demo_env rec_one =
     Inr ((Some \<lparr>sname = ''TCGA-01'', sitems = [(0, Num ''1.0'')]\<rparr>,
           Some \<lparr>sname = ''TCGA-01'', sitems = [(0, Num ''2.0'')]\<rparr>,
           Some \<lparr>sname = ''TCGA-01'', sitems = [(0, Num ''3.0'')]\<rparr>,
           Some [Str ''ENSG1''], Some [Str ''A'']), [processed_message ''one.tsv'' ''TCGA-01''])"
    by (simp add: run_record_def rec_one_def run_one)
  have r2: "run_record demo_env rec_bad =
     Inr (no_result, [error_message ''f3'' (KeyError ''gene_id'')])"
    by (simp add: run_record_def rec_bad_def run_bad)
  have r3: "run_record demo_env rec_two =
     Inr ((Some \<lparr>sname = ''TCGA-02'', sitems = [(0, Num ''4.0''), (2, Num ''7.0'')]\<rparr>,
           Some \<lparr>sname = ''TCGA-02'', sitems = [(0, Num ''5.0''), (2, Num ''8.0'')]\<rparr>,
           Some \<lparr>sname = ''TCGA-02'', sitems = [(0, Num ''6.0''), (2, Num ''9.0'')]\<rparr>,
           Some [Str ''ENSG1'', Str ''ENSG2''], Some [Str ''A'', Str ''B'']),
          [processed_message ''two.tsv'' ''TCGA-02''])"
    by (simp add: run_record_def rec_two_def run_two)
  have h: "\<forall>r \<in> set [rec_one, rec_bad, rec_two]. \<exists>res. run_record demo_env r = Inr res"
    using r1 r2 r3 by (simp add: no_result_def)
  have k: "length (filter (\<lambda>r. \<not> result_counts (run_record demo_env r))
             [rec_one, rec_bad, rec_two]) = 1"
    by (simp add: r1 r2 r3 succeeded_def no_result_def)
  note T = pool_yields_every_result_once
         [where w = 25 and g = "[rec_one, rec_bad, rec_two]" and e = demo_env
            and choice = all_done_first, OF w h]
  from T have m: "mset (concurrent_pipeline demo_env (as_completed all_done_first) 25
        [rec_one, rec_bad, rec_two]) = mset (map (run_record demo_env) [rec_one, rec_bad, rec_two])"
    by (rule conjunct1)
  from T k have c: "\<exists>ocs. returned (concurrent_pipeline demo_env (as_completed all_done_first) 25
             [rec_one, rec_bad, rec_two]) = Inr ocs \<and>
      length ocs = 3 \<and> length (filter succeeded ocs) = 2 \<and>
      length (tpm_data (collect ocs)) = 2"
    by (simp add: numeral_3_eq_3 numeral_2_eq_2)
  show ?thesis
    by (intro conjI w r1 r2 r3 pool_all_done_first m c)
qed

text \<open>
  Claim C3 as stated fails for a batch with a call that raises: of two records, the call for
  the second cannot print its error line, line 129 raises its exception again, and the loop ends
  without having received two results.
\<close>

theorem raising_call_ends_the_loop_counterexample:
  "as_completed first_done 25 [rec_one, rec_unprintable] = [rec_one, rec_unprintable] \<and>
   run_record demo_env rec_unprintable =
     Inl (UnicodeEncodeError ''codec cannot encode character'') \<and>
   returned (concurrent_pipeline demo_env (as_completed first_done) 25
     [rec_one, rec_unprintable]) = Inl (UnicodeEncodeError ''codec cannot encode character'')"
  by (simp add: pool_first_done concurrent_pipeline_def)
    (simp add: run_record_def rec_one_def rec_unprintable_def run_one run_unprintable)

text \<open>
  Claim C9.  When a group run ends with its three matrices, each of them has the columns
  \<open>gene_id\<close>, \<open>gene_name\<close> and then one column per result that counted, labelled with the sample
  barcodes of those results in the order of completion: the same labels in the same order in all
  three, as many as there were successes.  A result counts exactly when its first component is
  not \<open>None\<close>, and each one that counts adds one entry to each of the three lists.
\<close>

theorem finished_matrices_share_sample_columns:
  assumes "run_group e sch g = Inr (Saved tm fm um)"
  shows "\<exists>ocs. returned (concurrent_pipeline e sch max_workers g) = Inr ocs \<and>
         map fst (mx_columns tm) =
           ''gene_id'' # ''gene_name'' #
             map sample_barcode
               (filter (\<lambda>r. result_counts (run_record e r)) (sch max_workers g)) \<and>
         map fst (mx_columns tm) =
           ''gene_id'' # ''gene_name'' #
             map (\<lambda>oc. sname (the (fst oc))) (filter (\<lambda>oc. fst oc \<noteq> None) ocs) \<and>
         map fst (mx_columns fm) = map fst (mx_columns tm) \<and>
         map fst (mx_columns um) = map fst (mx_columns tm) \<and>
         length (map fst (mx_columns tm)) = 2 + length (filter (\<lambda>oc. fst oc \<noteq> None) ocs) \<and>
         length (tpm_data (collect ocs)) = length (filter (\<lambda>oc. fst oc \<noteq> None) ocs) \<and>
         length (fpkm_data (collect ocs)) = length (filter (\<lambda>oc. fst oc \<noteq> None) ocs) \<and>
         length (fpkm_uq_data (collect ocs)) = length (filter (\<lambda>oc. fst oc \<noteq> None) ocs)"
proof -
  from assms obtain ocs where
    ret: "returned (concurrent_pipeline e sch max_workers g) = Inr ocs" and
    fin: "finalize (collect ocs) = Inr (Saved tm fm um)"
    by (auto simp: run_group_def aggregate_def split: if_splits sum.splits)
  let ?S = "filter succeeded ocs"
  let ?done = "filter (\<lambda>r. result_counts (run_record e r)) (sch max_workers g)"
  have S: "?S = map (\<lambda>r. fst (projr (run_record e r))) ?done"
    by (rule pipeline_returned(3)[OF ret])
  have sf: "filter (\<lambda>oc. fst oc \<noteq> None) ocs = ?S"
    by (rule filter_cong[OF refl]) (simp add: succeeded_def)
  have full: "\<forall>oc \<in> set ?S. fst (snd oc) \<noteq> None \<and> fst (snd (snd oc)) \<noteq> None \<and>
      sname (the (fst (snd oc))) = sname (the (fst oc)) \<and>
      sname (the (fst (snd (snd oc)))) = sname (the (fst oc))"
  proof
    fix oc assume "oc \<in> set ?S"
    then have "oc \<in> set ocs" and "succeeded oc" by auto
    with pipeline_same_sample[OF ret] have "same_sample oc" by blast
    from same_sample_succeeded[OF this \<open>succeeded oc\<close>] show
      "fst (snd oc) \<noteq> None \<and> fst (snd (snd oc)) \<noteq> None \<and>
       sname (the (fst (snd oc))) = sname (the (fst oc)) \<and>
       sname (the (fst (snd (snd oc)))) = sname (the (fst oc))"
      by (metis fst_conv snd_conv option.sel option.distinct(1))
  qed
  have lab: "map (\<lambda>r. sname (the (fst (fst (projr (run_record e r)))))) ?done =
             map sample_barcode ?done"
  proof (rule map_cong[OF refl])
    fix r assume "r \<in> set ?done"
    then have m: "r \<in> set (sch max_workers g)" and c: "result_counts (run_record e r)"
      by simp_all
    from pipeline_returned(2)[OF ret] m have "\<not> isl (run_record e r)" by blast
    then obtain oc pr where rr: "run_record e r = Inr (oc, pr)" by (rule not_isl_result)
    with c have "succeeded oc" by simp
    from succeeded_label[OF rr this] rr
    show "sname (the (fst (fst (projr (run_record e r))))) = sample_barcode r" by simp
  qed
  have tl: "map sname (tpm_data (collect ocs)) = map sample_barcode ?done"
    unfolding collect_tpm S using lab by (simp add: comp_def)
  have tl': "map sname (tpm_data (collect ocs)) = map (\<lambda>oc. sname (the (fst oc))) ?S"
    unfolding collect_tpm by (simp add: comp_def)
  have fl: "map sname (List.map_filter (\<lambda>x. x) (fpkm_data (collect ocs))) =
            map sname (tpm_data (collect ocs))"
  proof -
    have "List.map_filter (\<lambda>x. x) (map (fst \<circ> snd) ?S) = map (the \<circ> (fst \<circ> snd)) ?S"
    proof (rule map_filter_id_all_Some)
      show "\<forall>x\<in>set ?S. (fst \<circ> snd) x \<noteq> None" using full unfolding comp_def by blast
    qed
    moreover have "map (sname \<circ> (the \<circ> (fst \<circ> snd))) ?S = map (sname \<circ> (the \<circ> fst)) ?S"
    proof (rule map_cong[OF refl])
      fix x assume "x \<in> set ?S"
      with full have "sname (the (fst (snd x))) = sname (the (fst x))" by blast
      then show "(sname \<circ> (the \<circ> (fst \<circ> snd))) x = (sname \<circ> (the \<circ> fst)) x" by simp
    qed
    ultimately show ?thesis
      unfolding collect_tpm collect_fpkm by (simp only: map_map)
  qed
  have ul: "map sname (List.map_filter (\<lambda>x. x) (fpkm_uq_data (collect ocs))) =
            map sname (tpm_data (collect ocs))"
  proof -
    have "List.map_filter (\<lambda>x. x) (map (fst \<circ> snd \<circ> snd) ?S) = map (the \<circ> (fst \<circ> snd \<circ> snd)) ?S"
    proof (rule map_filter_id_all_Some)
      show "\<forall>x\<in>set ?S. (fst \<circ> snd \<circ> snd) x \<noteq> None" using full unfolding comp_def by blast
    qed
    moreover have "map (sname \<circ> (the \<circ> (fst \<circ> snd \<circ> snd))) ?S = map (sname \<circ> (the \<circ> fst)) ?S"
    proof (rule map_cong[OF refl])
      fix x assume "x \<in> set ?S"
      with full have "sname (the (fst (snd (snd x)))) = sname (the (fst x))" by blast
      then show "(sname \<circ> (the \<circ> (fst \<circ> snd \<circ> snd))) x = (sname \<circ> (the \<circ> fst)) x" by simp
    qed
    ultimately show ?thesis
      unfolding collect_tpm collect_fpkm_uq by (simp only: map_map)
  qed
  have lens: "length (tpm_data (collect ocs)) = length ?S"
    "length (fpkm_data (collect ocs)) = length ?S"
    "length (fpkm_uq_data (collect ocs)) = length ?S"
    by (simp_all add: collect_tpm collect_fpkm collect_fpkm_uq)
  from finalize_Saved[OF fin] have
    lt: "map fst (mx_columns tm) = ''gene_id'' # ''gene_name'' # map sname (tpm_data (collect ocs))"
    and lf: "map fst (mx_columns fm) =
      ''gene_id'' # ''gene_name'' # map sname (List.map_filter (\<lambda>x. x) (fpkm_data (collect ocs)))"
    and lu: "map fst (mx_columns um) =
      ''gene_id'' # ''gene_name'' # map sname (List.map_filter (\<lambda>x. x) (fpkm_uq_data (collect ocs)))"
    by simp_all
  have c1: "map fst (mx_columns tm) = ''gene_id'' # ''gene_name'' # map sample_barcode ?done"
    using lt tl by simp
  have c2: "map fst (mx_columns tm) =
      ''gene_id'' # ''gene_name'' #
        map (\<lambda>oc. sname (the (fst oc))) (filter (\<lambda>oc. fst oc \<noteq> None) ocs)"
    using lt tl' sf by simp
  have c3: "map fst (mx_columns fm) = map fst (mx_columns tm)"
    using lt lf fl by simp
  have c4: "map fst (mx_columns um) = map fst (mx_columns tm)"
    using lt lu ul by simp
  have c5: "length (map fst (mx_columns tm)) = 2 + length (filter (\<lambda>oc. fst oc \<noteq> None) ocs)"
    using lt lens(1) sf by simp
  have c6: "length (tpm_data (collect ocs)) = length (filter (\<lambda>oc. fst oc \<noteq> None) ocs)"
    "length (fpkm_data (collect ocs)) = length (filter (\<lambda>oc. fst oc \<noteq> None) ocs)"
    "length (fpkm_uq_data (collect ocs)) = length (filter (\<lambda>oc. fst oc \<noteq> None) ocs)"
    using lens sf by simp_all
  show ?thesis
    by (intro exI[of _ ocs] conjI ret c1 c2 c3 c4 c5 c6)
qed

theorem finished_matrices_share_sample_columns_witness:
  "(\<exists>tm fm um. run_group demo_env reversed [rec_one, rec_two] = Inr (Saved tm fm um) \<and>
      map fst (mx_columns tm) = [''gene_id'', ''gene_name'', ''TCGA-02'', ''TCGA-01''] \<and>
      map fst (mx_columns fm) = map fst (mx_columns tm) \<and>
      map fst (mx_columns um) = map fst (mx_columns tm))"
proof -
  obtain tm fm um where r: "run_group demo_env reversed [rec_one, rec_two] = Inr (Saved tm fm um)"
    using group_two_then_one by blast
  have d: "map sample_barcode
          (filter (\<lambda>r. result_counts (run_record demo_env r))
             (reversed max_workers [rec_one, rec_two])) = [''TCGA-02'', ''TCGA-01'']"
    by (simp add: reversed_def run_record_def rec_one_def rec_two_def run_one run_two
        succeeded_def)
  from finished_matrices_share_sample_columns[OF r] obtain ocs where
    "map fst (mx_columns tm) =
           ''gene_id'' # ''gene_name'' #
             map sample_barcode
               (filter (\<lambda>r. result_counts (run_record demo_env r))
                  (reversed max_workers [rec_one, rec_two]))"
    "map fst (mx_columns fm) = map fst (mx_columns tm)"
    "map fst (mx_columns um) = map fst (mx_columns tm)"
    by blast
  with d r show ?thesis
    by (intro exI[of _ tm] exI[of _ fm] exI[of _ um] conjI) simp_all
qed

text \<open>
  Claim C6, as amended.  A stream without a result that counts ends in the empty-group outcome
  and no matrix is built.  A stream of a group with exactly one result that counts, from a sample
  whose barcode is neither \<open>gene_id\<close> nor \<open>gene_name\<close>, ends with three matrices; each has the
  columns \<open>gene_id\<close>, \<open>gene_name\<close> and the one sample column, in this order, the first two holding
  the gene identifiers and gene names of that sample and the third its measure, over the index
  of that sample.
\<close>

theorem aggregate_zero_or_one_success:
  "(filter succeeded rs = [] \<longrightarrow> aggregate rs = Inr NoValidData) \<and>
   (\<forall>ocs t f u gi gn.
      returned (concurrent_pipeline e sch w g) = Inr ocs \<and>
      filter succeeded ocs = [(Some t, f, u, gi, gn)] \<and>
      sname t \<noteq> ''gene_id'' \<and> sname t \<noteq> ''gene_name'' \<longrightarrow>
      (\<exists>f' u' gi' gn'.
         f = Some f' \<and> u = Some u' \<and> gi = Some gi' \<and> gn = Some gn' \<and>
         aggregate ocs =
           Inr (Saved
             \<lparr>mx_index = series_index t,
              mx_columns = [(''gene_id'', gi'), (''gene_name'', gn'),
                            (sname t, map snd (sitems t))]\<rparr>
             \<lparr>mx_index = series_index t,
              mx_columns = [(''gene_id'', gi'), (''gene_name'', gn'),
                            (sname t, map snd (sitems f'))]\<rparr>
             \<lparr>mx_index = series_index t,
              mx_columns = [(''gene_id'', gi'), (''gene_name'', gn'),
                            (sname t, map snd (sitems u'))]\<rparr>)))"
proof (intro conjI allI impI)
  assume "filter succeeded rs = []"
  then have "tpm_data (collect rs) = []" by (simp add: collect_tpm)
  then show "aggregate rs = Inr NoValidData"
    by (simp add: aggregate_def finalize_empty)
next
  fix ocs t f u gi gn
  assume a: "returned (concurrent_pipeline e sch w g) = Inr ocs \<and>
             filter succeeded ocs = [(Some t, f, u, gi, gn)] \<and>
             sname t \<noteq> ''gene_id'' \<and> sname t \<noteq> ''gene_name''"
  then have ret: "returned (concurrent_pipeline e sch w g) = Inr ocs"
    and S: "filter succeeded ocs = [(Some t, f, u, gi, gn)]" by simp_all
  then have "(Some t, f, u, gi, gn) \<in> set (filter succeeded ocs)" by simp
  then have mem: "(Some t, f, u, gi, gn) \<in> set ocs" and ok: "succeeded (Some t, f, u, gi, gn)"
    by simp_all
  from mem pipeline_same_sample[OF ret] have ss: "same_sample (Some t, f, u, gi, gn)"
    by blast
  from same_sample_SomeD[OF ss] obtain f' u' gi' gn' where
    eq: "f = Some f'" "u = Some u'" "gi = Some gi'" "gn = Some gn'" and
    nm: "sname f' = sname t" "sname u' = sname t" and
    ix: "series_index f' = series_index t" "series_index u' = series_index t" and
    ln: "length gi' = length (sitems t)" "length gn' = length (sitems t)" and
    ds: "distinct (series_index t)"
    by blast
  have axis_ok: "\<forall>oc \<in> set ocs. succeeded oc \<longrightarrow> fst (snd (snd (snd oc))) \<noteq> None"
  proof (intro ballI impI)
    fix oc assume "oc \<in> set ocs" and s: "succeeded oc"
    with pipeline_same_sample[OF ret] have "same_sample oc" by blast
    from same_sample_succeeded[OF this s] show "fst (snd (snd (snd oc))) \<noteq> None"
      by (metis fst_conv snd_conv option.distinct(1))
  qed
  have acc:
    "tpm_data (collect ocs) = [t]" "fpkm_data (collect ocs) = [Some f']"
    "fpkm_uq_data (collect ocs) = [Some u']"
    "new_gene_ids (collect ocs) = Some gi'" "new_gene_names (collect ocs) = Some gn'"
    using S eq collect_axis[OF axis_ok]
    by (simp_all add: collect_tpm collect_fpkm collect_fpkm_uq)
  have lf: "length (sitems f') = length (sitems t)" and lu: "length (sitems u') = length (sitems t)"
    using ix by (metis length_map series_index_def)+
  from ds ix have dsf: "distinct (series_index f')" and dsu: "distinct (series_index u')"
    by simp_all
  from a nm have names: "sname t \<noteq> ''gene_id''" "sname t \<noteq> ''gene_name''"
    "sname f' \<noteq> ''gene_id''" "sname f' \<noteq> ''gene_name''"
    "sname u' \<noteq> ''gene_id''" "sname u' \<noteq> ''gene_name''"
    by simp_all
  have "finalize (collect ocs) =
     Inr (Saved
       \<lparr>mx_index = series_index t,
        mx_columns = [(''gene_id'', gi'), (''gene_name'', gn'), (sname t, map snd (sitems t))]\<rparr>
       \<lparr>mx_index = series_index t,
        mx_columns = [(''gene_id'', gi'), (''gene_name'', gn'), (sname t, map snd (sitems f'))]\<rparr>
       \<lparr>mx_index = series_index t,
        mx_columns = [(''gene_id'', gi'), (''gene_name'', gn'), (sname t, map snd (sitems u'))]\<rparr>)"
    using acc ds dsf dsu ln lf lu names nm ix
    by (simp add: finalize_def concat_axis1_single insert0_def series_index_def)
  with eq show "\<exists>f' u' gi' gn'.
         f = Some f' \<and> u = Some u' \<and> gi = Some gi' \<and> gn = Some gn' \<and>
         aggregate ocs =
           Inr (Saved
             \<lparr>mx_index = series_index t,
              mx_columns = [(''gene_id'', gi'), (''gene_name'', gn'),
                            (sname t, map snd (sitems t))]\<rparr>
             \<lparr>mx_index = series_index t,
              mx_columns = [(''gene_id'', gi'), (''gene_name'', gn'),
                            (sname t, map snd (sitems f'))]\<rparr>
             \<lparr>mx_index = series_index t,
              mx_columns = [(''gene_id'', gi'), (''gene_name'', gn'),
                            (sname t, map snd (sitems u'))]\<rparr>)"
    by (simp add: aggregate_def)
qed

theorem aggregate_zero_or_one_success_witness:
  "returned (concurrent_pipeline demo_env in_order 25 [rec_bad]) = Inr [no_result] \<and>
   filter succeeded [no_result] = [] \<and>
   aggregate [no_result] = Inr NoValidData \<and>
   returned (concurrent_pipeline demo_env in_order 25 [rec_one, rec_bad]) =
     Inr [(Some \<lparr>sname = ''TCGA-01'', sitems = [(0, Num ''1.0'')]\<rparr>,
           Some \<lparr>sname = ''TCGA-01'', sitems = [(0, Num ''2.0'')]\<rparr>,
           Some \<lparr>sname = ''TCGA-01'', sitems = [(0, Num ''3.0'')]\<rparr>,
           Some [Str ''ENSG1''], Some [Str ''A'']), no_result] \<and>
   filter succeeded
     [(Some \<lparr>sname = ''TCGA-01'', sitems = [(0, Num ''1.0'')]\<rparr>,
       Some \<lparr>sname = ''TCGA-01'', sitems = [(0, Num ''2.0'')]\<rparr>,
       Some \<lparr>sname = ''TCGA-01'', sitems = [(0, Num ''3.0'')]\<rparr>,
       Some [Str ''ENSG1''], Some [Str ''A'']), no_result] =
     [(Some \<lparr>sname = ''TCGA-01'', sitems = [(0, Num ''1.0'')]\<rparr>,
       Some \<lparr>sname = ''TCGA-01'', sitems = [(0, Num ''2.0'')]\<rparr>,
       Some \<lparr>sname = ''TCGA-01'', sitems = [(0, Num ''3.0'')]\<rparr>,
       Some [Str ''ENSG1''], Some [Str ''A''])] \<and>
   ''TCGA-01'' \<noteq> ''gene_id'' \<and> ''TCGA-01'' \<noteq> ''gene_name'' \<and>
   aggregate
     [(Some \<lparr>sname = ''TCGA-01'', sitems = [(0, Num ''1.0'')]\<rparr>,
       Some \<lparr>sname = ''TCGA-01'', sitems = [(0, Num ''2.0'')]\<rparr>,
       Some \<lparr>sname = ''TCGA-01'', sitems = [(0, Num ''3.0'')]\<rparr>,
       Some [Str ''ENSG1''], Some [Str ''A'']), no_result] =
     Inr (Saved
       \<lparr>mx_index = [0],
        mx_columns = [(''gene_id'', [Str ''ENSG1'']), (''gene_name'', [Str ''A'']),
                      (''TCGA-01'', [Num ''1.0''])]\<rparr>
       \<lparr>mx_index = [0],
        mx_columns = [(''gene_id'', [Str ''ENSG1'']), (''gene_name'', [Str ''A'']),
                      (''TCGA-01'', [Num ''2.0''])]\<rparr>
       \<lparr>mx_index = [0],
        mx_columns = [(''gene_id'', [Str ''ENSG1'']), (''gene_name'', [Str ''A'']),
                      (''TCGA-01'', [Num ''3.0''])]\<rparr>)"
proof -
  note T = aggregate_zero_or_one_success
  let ?one = "(Some \<lparr>sname = ''TCGA-01'', sitems = [(0, Num ''1.0'')]\<rparr>,
       Some \<lparr>sname = ''TCGA-01'', sitems = [(0, Num ''2.0'')]\<rparr>,
       Some \<lparr>sname = ''TCGA-01'', sitems = [(0, Num ''3.0'')]\<rparr>,
       Some [Str ''ENSG1''], Some [Str ''A''])"
  have p0: "returned (concurrent_pipeline demo_env in_order 25 [rec_bad]) = Inr [no_result]"
    by (simp add: concurrent_pipeline_def in_order_def run_record_def rec_bad_def run_bad)
  have z: "filter succeeded [no_result] = []"
    by (simp add: succeeded_def no_result_def)
  from T[where rs = "[no_result]"] z
  have r0: "aggregate [no_result] = Inr NoValidData"
    by blast
  have p1: "returned (concurrent_pipeline demo_env in_order 25 [rec_one, rec_bad]) =
      Inr [?one, no_result]"
    by (simp add: concurrent_pipeline_def in_order_def run_record_def rec_bad_def rec_one_def
        run_bad run_one)
  have o: "filter succeeded [?one, no_result] = [?one]"
    by (simp add: succeeded_def no_result_def)
  have n: "''TCGA-01'' \<noteq> ''gene_id''" "''TCGA-01'' \<noteq> ''gene_name''"
    by simp_all
  from T[where e = demo_env and sch = in_order and w = 25 and g = "[rec_one, rec_bad]",
         THEN conjunct2, rule_format,
         of "[?one, no_result]"
            "\<lparr>sname = ''TCGA-01'', sitems = [(0, Num ''1.0'')]\<rparr>"
            "Some \<lparr>sname = ''TCGA-01'', sitems = [(0, Num ''2.0'')]\<rparr>"
            "Some \<lparr>sname = ''TCGA-01'', sitems = [(0, Num ''3.0'')]\<rparr>"
            "Some [Str ''ENSG1'']" "Some [Str ''A'']"] p1 o n
  have r1: "aggregate [?one, no_result] =
     Inr (Saved
       \<lparr>mx_index = [0],
        mx_columns = [(''gene_id'', [Str ''ENSG1'']), (''gene_name'', [Str ''A'']),
                      (''TCGA-01'', [Num ''1.0''])]\<rparr>
       \<lparr>mx_index = [0],
        mx_columns = [(''gene_id'', [Str ''ENSG1'']), (''gene_name'', [Str ''A'']),
                      (''TCGA-01'', [Num ''2.0''])]\<rparr>
       \<lparr>mx_index = [0],
        mx_columns = [(''gene_id'', [Str ''ENSG1'']), (''gene_name'', [Str ''A'']),
                      (''TCGA-01'', [Num ''3.0''])]\<rparr>)"
    by (simp add: series_index_def)
  from p0 z r0 p1 o n r1 show ?thesis by (intro conjI)
qed

text \<open>
  Claim C6 as stated fails for a sample whose barcode is \<open>gene_id\<close>: the one sample column
  already carries the label that line 148 inserts, the insertion raises, and no matrix is built.
\<close>

theorem single_success_named_gene_id_counterexample:
  "returned (concurrent_pipeline demo_env in_order max_workers [rec_named_gene_id]) =
     Inr [(Some \<lparr>sname = ''gene_id'', sitems = [(0, Num ''1.0'')]\<rparr>,
           Some \<lparr>sname = ''gene_id'', sitems = [(0, Num ''2.0'')]\<rparr>,
           Some \<lparr>sname = ''gene_id'', sitems = [(0, Num ''3.0'')]\<rparr>,
           Some [Str ''ENSG1''], Some [Str ''A''])] \<and>
   filter succeeded
     [(Some \<lparr>sname = ''gene_id'', sitems = [(0, Num ''1.0'')]\<rparr>,
       Some \<lparr>sname = ''gene_id'', sitems = [(0, Num ''2.0'')]\<rparr>,
       Some \<lparr>sname = ''gene_id'', sitems = [(0, Num ''3.0'')]\<rparr>,
       Some [Str ''ENSG1''], Some [Str ''A''])] =
     [(Some \<lparr>sname = ''gene_id'', sitems = [(0, Num ''1.0'')]\<rparr>,
       Some \<lparr>sname = ''gene_id'', sitems = [(0, Num ''2.0'')]\<rparr>,
       Some \<lparr>sname = ''gene_id'', sitems = [(0, Num ''3.0'')]\<rparr>,
       Some [Str ''ENSG1''], Some [Str ''A''])] \<and>
   aggregate
     [(Some \<lparr>sname = ''gene_id'', sitems = [(0, Num ''1.0'')]\<rparr>,
       Some \<lparr>sname = ''gene_id'', sitems = [(0, Num ''2.0'')]\<rparr>,
       Some \<lparr>sname = ''gene_id'', sitems = [(0, Num ''3.0'')]\<rparr>,
       Some [Str ''ENSG1''], Some [Str ''A''])] =
     Inl (ValueError ''cannot insert gene_id, already exists'')"
  by (simp add: group_defs run_one succeeded_def)

section \<open>Facts about grouping and the run over one site\<close>

lemma contains_iff: "contains p s \<longleftrightarrow> (\<exists>xs ys. s = xs @ p @ ys)"
proof (induction s)
  case Nil
  then show ?case by auto
next
  case (Cons c cs)
  have "startswith p (c # cs) \<longleftrightarrow> (\<exists>ys. c # cs = p @ ys)"
    unfolding startswith_def
    by (metis append_eq_conv_conj append_take_drop_id)
  moreover have "(\<exists>xs ys. c # cs = xs @ p @ ys) \<longleftrightarrow>
      (\<exists>ys. c # cs = p @ ys) \<or> (\<exists>xs ys. cs = xs @ p @ ys)"
    by (auto simp: Cons_eq_append_conv)
  ultimately show ?case using Cons.IH by simp
qed

lemma contains_lower_iff:
  "contains p (lower s) \<longleftrightarrow> (\<exists>xs w ys. s = xs @ w @ ys \<and> lower w = p)"
proof
  assume "contains p (lower s)"
  then obtain xs ys where "map lower_char s = xs @ p @ ys"
    unfolding contains_iff lower_def by blast
  then obtain us vs where s: "s = us @ vs" and "xs = map lower_char us"
    and "p @ ys = map lower_char vs"
    by (auto simp: map_eq_append_conv)
  then obtain w zs where "vs = w @ zs" and "p = map lower_char w"
    by (auto simp: append_eq_map_conv)
  with s show "\<exists>xs w ys. s = xs @ w @ ys \<and> lower w = p"
    unfolding lower_def by blast
next
  assume "\<exists>xs w ys. s = xs @ w @ ys \<and> lower w = p"
  then obtain xs w ys where "s = xs @ w @ ys" and "lower w = p" by blast
  then have "lower s = lower xs @ p @ lower ys"
    by (simp add: lower_def)
  then show "contains p (lower s)"
    unfolding contains_iff by blast
qed

lemma run_site_both:
  assumes "df \<noteq> []" and "run_group e sch (tumor_sample_df df) = Inr a"
    and "run_group e sch (normal_sample_df df) = Inr b"
  shows "groups_done (run_site e sch df) = [(''tumor'', a), (''normal'', b)]"
    and "aborted (run_site e sch df) = None"
  using assms by (simp_all add: run_site_def site_groups_def Let_def)

lemma run_site_tumor_raises:
  assumes "df \<noteq> []" and "run_group e sch (tumor_sample_df df) = Inl x"
  shows "groups_done (run_site e sch df) = []" and "aborted (run_site e sch df) = Some x"
  using assms by (simp_all add: run_site_def site_groups_def Let_def)

lemma run_site_requested:
  assumes "tumor_sample_df df \<noteq> []" and "normal_sample_df df \<noteq> []"
    and "run_group e sch (tumor_sample_df df) = Inr a"
  shows "requested (run_site e sch df) =
           pipeline_requests sch max_workers (tumor_sample_df df) @
           pipeline_requests sch max_workers (normal_sample_df df)"
proof -
  from assms(1) have "df \<noteq> []" by (auto simp: tumor_sample_df_def)
  with assms show ?thesis
    by (cases "run_group e sch (normal_sample_df df)")
      (simp_all add: run_site_def site_groups_def Let_def)
qed

lemmas type_defs = tumor_sample_df_def normal_sample_df_def lower_def lower_char_def
  startswith_def rec_one_def rec_two_def rec_bad_def rec_other_def

lemma demo_groups:
  "tumor_sample_df [rec_one, rec_two, rec_bad, rec_other] = [rec_one, rec_two]"
  "normal_sample_df [rec_one, rec_two, rec_bad, rec_other] = [rec_two, rec_bad]"
  "tumor_sample_df [rec_one, rec_two, rec_bad] = [rec_one, rec_two]"
  "normal_sample_df [rec_one, rec_two, rec_bad] = [rec_two, rec_bad]"
  by (simp_all add: type_defs)

lemma group_bad_then_two:
  "run_group demo_env reversed [rec_two, rec_bad] = run_group demo_env in_order [rec_two, rec_bad]"
  by (simp add: group_defs run_two run_bad no_result_def)

lemma site_run_aborts:
  "run_site demo_env in_order [rec_one, rec_two, rec_bad] =
     \<lparr>groups_done = [],
      requested = [request_url DATA_ENDPOINT ''f1'', request_url DATA_ENDPOINT ''f2''],
      aborted = Some (ValueError ''Length of values does not match length of index'')\<rparr>"
  by (simp add: run_site_def site_groups_def demo_groups group_one_then_two Let_def)
    (simp add: pipeline_requests_def in_order_def rec_one_def rec_two_def)

section \<open>Claims about grouping\<close>

text \<open>
  Claim C8, as amended.  A record of the metadata frame is in the tumor group exactly when its
  sample type contains \<open>tumor\<close> in some mix of upper and lower case, and in the normal group
  exactly when it contains \<open>normal\<close> so; a record that contains neither is in no group.  Each
  group is run on its own records alone, the tumor group first: when both runs end without an
  exception the site has the two results, and when the tumor run raises, the run over the site
  ends there with nothing done for the normal group.
\<close>

theorem groups_by_sample_type:
  "(r \<in> set (tumor_sample_df df) \<longleftrightarrow>
      r \<in> set df \<and> (\<exists>xs w ys. sample_type r = xs @ w @ ys \<and> lower w = ''tumor'')) \<and>
   (r \<in> set (normal_sample_df df) \<longleftrightarrow>
      r \<in> set df \<and> (\<exists>xs w ys. sample_type r = xs @ w @ ys \<and> lower w = ''normal'')) \<and>
   (\<not> (\<exists>xs w ys. sample_type r = xs @ w @ ys \<and> lower w = ''tumor'') \<and>
    \<not> (\<exists>xs w ys. sample_type r = xs @ w @ ys \<and> lower w = ''normal'') \<longrightarrow>
      r \<notin> set (tumor_sample_df df) \<and> r \<notin> set (normal_sample_df df)) \<and>
   (df \<noteq> [] \<and> run_group e sch (tumor_sample_df df) = Inr a \<and>
    run_group e sch (normal_sample_df df) = Inr b \<longrightarrow>
      groups_done (run_site e sch df) = [(''tumor'', a), (''normal'', b)] \<and>
      aborted (run_site e sch df) = None) \<and>
   (df \<noteq> [] \<and> run_group e sch (tumor_sample_df df) = Inl x \<longrightarrow>
      groups_done (run_site e sch df) = [] \<and> aborted (run_site e sch df) = Some x)"
proof -
  have t: "r \<in> set (tumor_sample_df df) \<longleftrightarrow>
      r \<in> set df \<and> (\<exists>xs w ys. sample_type r = xs @ w @ ys \<and> lower w = ''tumor'')"
    by (simp add: tumor_sample_df_def contains_lower_iff)
  have n: "r \<in> set (normal_sample_df df) \<longleftrightarrow>
      r \<in> set df \<and> (\<exists>xs w ys. sample_type r = xs @ w @ ys \<and> lower w = ''normal'')"
    by (simp add: normal_sample_df_def contains_lower_iff)
  have neither: "\<not> (\<exists>xs w ys. sample_type r = xs @ w @ ys \<and> lower w = ''tumor'') \<and>
    \<not> (\<exists>xs w ys. sample_type r = xs @ w @ ys \<and> lower w = ''normal'') \<longrightarrow>
      r \<notin> set (tumor_sample_df df) \<and> r \<notin> set (normal_sample_df df)"
    using t n by blast
  have both: "df \<noteq> [] \<and> run_group e sch (tumor_sample_df df) = Inr a \<and>
    run_group e sch (normal_sample_df df) = Inr b \<longrightarrow>
      groups_done (run_site e sch df) = [(''tumor'', a), (''normal'', b)] \<and>
      aborted (run_site e sch df) = None"
    using run_site_both[of df e sch a b] by blast
  have raises: "df \<noteq> [] \<and> run_group e sch (tumor_sample_df df) = Inl x \<longrightarrow>
      groups_done (run_site e sch df) = [] \<and> aborted (run_site e sch df) = Some x"
    using run_site_tumor_raises[of df e sch x] by blast
  from t n neither both raises show ?thesis by (intro conjI)
qed

theorem groups_by_sample_type_witness:
  "rec_one \<in> set (tumor_sample_df [rec_one, rec_two, rec_bad, rec_other]) \<and>
   sample_type rec_one = ''Primary '' @ ''Tumor'' @ [] \<and> lower ''Tumor'' = ''tumor'' \<and>
   rec_bad \<in> set (normal_sample_df [rec_one, rec_two, rec_bad, rec_other]) \<and>
   sample_type rec_bad = ''Solid Tissue '' @ ''Normal'' @ [] \<and> lower ''Normal'' = ''normal'' \<and>
   rec_other \<notin> set (tumor_sample_df [rec_one, rec_two, rec_bad, rec_other]) \<and>
   rec_other \<notin> set (normal_sample_df [rec_one, rec_two, rec_bad, rec_other]) \<and>
   map fst (groups_done (run_site demo_env reversed [rec_one, rec_two, rec_bad, rec_other])) =
     [''tumor'', ''normal''] \<and>
   aborted (run_site demo_env reversed [rec_one, rec_two, rec_bad, rec_other]) = None \<and>
   run_group demo_env in_order (tumor_sample_df [rec_one, rec_two, rec_bad]) =
     Inl (ValueError ''Length of values does not match length of index'') \<and>
   groups_done (run_site demo_env in_order [rec_one, rec_two, rec_bad]) = [] \<and>
   aborted (run_site demo_env in_order [rec_one, rec_two, rec_bad]) =
     Some (ValueError ''Length of values does not match length of index'')"
proof -
  let ?df = "[rec_one, rec_two, rec_bad, rec_other]"
  note T = groups_by_sample_type
  have s1: "sample_type rec_one = ''Primary '' @ ''Tumor'' @ []" "lower ''Tumor'' = ''tumor''"
    and s2: "sample_type rec_bad = ''Solid Tissue '' @ ''Normal'' @ []"
      "lower ''Normal'' = ''normal''"
    by (simp_all add: rec_one_def rec_bad_def lower_def lower_char_def)
  from s1 have e1: "\<exists>xs w ys. sample_type rec_one = xs @ w @ ys \<and> lower w = ''tumor''"
    by blast
  from s2 have e2: "\<exists>xs w ys. sample_type rec_bad = xs @ w @ ys \<and> lower w = ''normal''"
    by blast
  have i1: "rec_one \<in> set ?df" and i2: "rec_bad \<in> set ?df" by simp_all
  have m1: "rec_one \<in> set (tumor_sample_df ?df)"
    using T[where r = rec_one and df = ?df, THEN conjunct1] e1 i1 by blast
  have m2: "rec_bad \<in> set (normal_sample_df ?df)"
    using T[where r = rec_bad and df = ?df, THEN conjunct2, THEN conjunct1] e2 i2 by blast
  have "\<not> contains ''tumor'' (lower (sample_type rec_other))"
    and "\<not> contains ''normal'' (lower (sample_type rec_other))"
    by (simp_all add: rec_other_def lower_def lower_char_def startswith_def)
  then have e3: "\<not> (\<exists>xs w ys. sample_type rec_other = xs @ w @ ys \<and> lower w = ''tumor'')"
    "\<not> (\<exists>xs w ys. sample_type rec_other = xs @ w @ ys \<and> lower w = ''normal'')"
    using contains_lower_iff by blast+
  have m3: "rec_other \<notin> set (tumor_sample_df ?df)" "rec_other \<notin> set (normal_sample_df ?df)"
    using T[where r = rec_other and df = ?df, THEN conjunct2, THEN conjunct2, THEN conjunct1] e3
    by blast+
  obtain a where a: "run_group demo_env reversed (tumor_sample_df ?df) = Inr a"
    using group_two_then_one by (simp add: demo_groups)
  obtain b where b: "run_group demo_env reversed (normal_sample_df ?df) = Inr b"
    using group_two_bad group_bad_then_two by (simp add: demo_groups)
  have ne: "?df \<noteq> []" by simp
  from T[where df = ?df and e = demo_env and sch = reversed and a = a and b = b] ne a b
  have g: "groups_done (run_site demo_env reversed ?df) = [(''tumor'', a), (''normal'', b)]"
    "aborted (run_site demo_env reversed ?df) = None"
    by blast+
  have x: "run_group demo_env in_order (tumor_sample_df [rec_one, rec_two, rec_bad]) =
     Inl (ValueError ''Length of values does not match length of index'')"
    by (simp add: demo_groups group_one_then_two)
  have ne': "[rec_one, rec_two, rec_bad] \<noteq> []" by simp
  from T[where df = "[rec_one, rec_two, rec_bad]" and e = demo_env and sch = in_order and
         x = "ValueError ''Length of values does not match length of index''"] ne' x
  have h: "groups_done (run_site demo_env in_order [rec_one, rec_two, rec_bad]) = []"
    "aborted (run_site demo_env in_order [rec_one, rec_two, rec_bad]) =
       Some (ValueError ''Length of values does not match length of index'')"
    by blast+
  from s1 s2 m1 m2 m3 g x h show ?thesis by simp
qed

text \<open>
  Claim C8 as stated fails in its last part.  With the tumor files completing in the order
  \<open>f1\<close>, \<open>f2\<close>, the second sample has a row that the first has not, the insertion of line 147
  raises, and the run ends: the normal group, which on its own gives three matrices, is not
  processed at all.
\<close>

theorem normal_group_depends_on_tumor_group_counterexample:
  "normal_sample_df [rec_one, rec_two, rec_bad] = [rec_two, rec_bad] \<and>
   run_group demo_env in_order [rec_two, rec_bad] =
     Inr (Saved
       \<lparr>mx_index = [0, 2],
        mx_columns = [(''gene_id'', [Str ''ENSG1'', Str ''ENSG2'']),
                      (''gene_name'', [Str ''A'', Str ''B'']),
                      (''TCGA-02'', [Num ''4.0'', Num ''7.0''])]\<rparr>
       \<lparr>mx_index = [0, 2],
        mx_columns = [(''gene_id'', [Str ''ENSG1'', Str ''ENSG2'']),
                      (''gene_name'', [Str ''A'', Str ''B'']),
                      (''TCGA-02'', [Num ''5.0'', Num ''8.0''])]\<rparr>
       \<lparr>mx_index = [0, 2],
        mx_columns = [(''gene_id'', [Str ''ENSG1'', Str ''ENSG2'']),
                      (''gene_name'', [Str ''A'', Str ''B'']),
                      (''TCGA-02'', [Num ''6.0'', Num ''9.0''])]\<rparr>) \<and>
   groups_done (run_site demo_env in_order [rec_one, rec_two, rec_bad]) = [] \<and>
   aborted (run_site demo_env in_order [rec_one, rec_two, rec_bad]) =
     Some (ValueError ''Length of values does not match length of index'')"
  by (simp add: demo_groups group_two_bad site_run_aborts)

text \<open>
  Claim C10, as amended.  A record whose sample type contains both \<open>tumor\<close> and \<open>normal\<close>, in
  whatever case, is in both groups.  Its file is requested and processed in the pool of the tumor
  group, and, when the tumor run ends without an exception, once more in the pool of the normal
  group.
\<close>

theorem record_in_both_groups_is_processed_twice:
  assumes "r \<in> set df"
    and "\<exists>xs w ys. sample_type r = xs @ w @ ys \<and> lower w = ''tumor''"
    and "\<exists>xs w ys. sample_type r = xs @ w @ ys \<and> lower w = ''normal''"
    and "mset (sch max_workers (tumor_sample_df df)) = mset (tumor_sample_df df)"
    and "mset (sch max_workers (normal_sample_df df)) = mset (normal_sample_df df)"
    and "run_group e sch (tumor_sample_df df) = Inr a"
  shows "r \<in> set (tumor_sample_df df) \<and> r \<in> set (normal_sample_df df) \<and>
         run_record e r \<in> set (concurrent_pipeline e sch max_workers (tumor_sample_df df)) \<and>
         run_record e r \<in> set (concurrent_pipeline e sch max_workers (normal_sample_df df)) \<and>
         requested (run_site e sch df) =
           pipeline_requests sch max_workers (tumor_sample_df df) @
           pipeline_requests sch max_workers (normal_sample_df df) \<and>
         1 \<le> count_list (pipeline_requests sch max_workers (tumor_sample_df df))
               (request_url DATA_ENDPOINT (file_id r)) \<and>
         1 \<le> count_list (pipeline_requests sch max_workers (normal_sample_df df))
               (request_url DATA_ENDPOINT (file_id r)) \<and>
         2 \<le> count_list (requested (run_site e sch df)) (request_url DATA_ENDPOINT (file_id r))"
proof -
  let ?T = "tumor_sample_df df" and ?N = "normal_sample_df df"
  let ?u = "request_url DATA_ENDPOINT (file_id r)"
  from assms(1-3) have rt: "r \<in> set ?T" and rn: "r \<in> set ?N"
    by (simp_all add: tumor_sample_df_def normal_sample_df_def contains_lower_iff)
  from assms(4) have "set (sch max_workers ?T) = set ?T" by (metis set_mset_mset)
  with rt have st: "r \<in> set (sch max_workers ?T)" by simp
  from assms(5) have "set (sch max_workers ?N) = set ?N" by (metis set_mset_mset)
  with rn have sn: "r \<in> set (sch max_workers ?N)" by simp
  from st sn have pr: "run_record e r \<in> set (concurrent_pipeline e sch max_workers ?T)"
    "run_record e r \<in> set (concurrent_pipeline e sch max_workers ?N)"
    by (simp_all add: concurrent_pipeline_def)
  from st sn have ur: "?u \<in> set (pipeline_requests sch max_workers ?T)"
    "?u \<in> set (pipeline_requests sch max_workers ?N)"
    by (auto simp: pipeline_requests_def)
  then have "count_list (pipeline_requests sch max_workers ?T) ?u \<noteq> 0"
    "count_list (pipeline_requests sch max_workers ?N) ?u \<noteq> 0"
    by (simp_all only: count_list_0_iff not_not)
  then have c: "1 \<le> count_list (pipeline_requests sch max_workers ?T) ?u"
    "1 \<le> count_list (pipeline_requests sch max_workers ?N) ?u"
    by simp_all
  from rt rn have "?T \<noteq> []" "?N \<noteq> []" by auto
  from run_site_requested[OF this assms(6)] have
    rq: "requested (run_site e sch df) =
           pipeline_requests sch max_workers ?T @ pipeline_requests sch max_workers ?N" .
  with c have "2 \<le> count_list (requested (run_site e sch df)) ?u"
    by simp
  with rt rn pr rq c show ?thesis by (intro conjI)
qed

theorem record_in_both_groups_is_processed_twice_witness:
  "rec_two \<in> set [rec_one, rec_two, rec_bad, rec_other] \<and>
   sample_type rec_two = [] @ ''Tumor'' @ '' adjacent normal'' \<and> lower ''Tumor'' = ''tumor'' \<and>
   sample_type rec_two = ''Tumor adjacent '' @ ''normal'' @ [] \<and> lower ''normal'' = ''normal'' \<and>
   rec_two \<in> set (tumor_sample_df [rec_one, rec_two, rec_bad, rec_other]) \<and>
   rec_two \<in> set (normal_sample_df [rec_one, rec_two, rec_bad, rec_other]) \<and>
   requested (run_site demo_env reversed [rec_one, rec_two, rec_bad, rec_other]) =
     [request_url DATA_ENDPOINT ''f2'', request_url DATA_ENDPOINT ''f1'',
      request_url DATA_ENDPOINT ''f3'', request_url DATA_ENDPOINT ''f2''] \<and>
   2 \<le> count_list (requested (run_site demo_env reversed [rec_one, rec_two, rec_bad, rec_other]))
         (request_url DATA_ENDPOINT (file_id rec_two))"
proof -
  let ?df = "[rec_one, rec_two, rec_bad, rec_other]"
  have h1: "rec_two \<in> set ?df" by simp
  have s: "sample_type rec_two = [] @ ''Tumor'' @ '' adjacent normal''" "lower ''Tumor'' = ''tumor''"
    "sample_type rec_two = ''Tumor adjacent '' @ ''normal'' @ []" "lower ''normal'' = ''normal''"
    by (simp_all add: rec_two_def lower_def lower_char_def)
  from s have h2: "\<exists>xs w ys. sample_type rec_two = xs @ w @ ys \<and> lower w = ''tumor''"
    by blast
  from s have h3: "\<exists>xs w ys. sample_type rec_two = xs @ w @ ys \<and> lower w = ''normal''"
    by blast
  have h4: "mset (reversed max_workers (tumor_sample_df ?df)) = mset (tumor_sample_df ?df)"
    and h5: "mset (reversed max_workers (normal_sample_df ?df)) = mset (normal_sample_df ?df)"
    by (simp_all add: reversed_def)
  obtain a where h6: "run_group demo_env reversed (tumor_sample_df ?df) = Inr a"
    using group_two_then_one by (simp add: demo_groups)
  have q: "pipeline_requests reversed max_workers (tumor_sample_df ?df) @
           pipeline_requests reversed max_workers (normal_sample_df ?df) =
     [request_url DATA_ENDPOINT ''f2'', request_url DATA_ENDPOINT ''f1'',
      request_url DATA_ENDPOINT ''f3'', request_url DATA_ENDPOINT ''f2'']"
    by (simp add: demo_groups)
      (simp add: pipeline_requests_def reversed_def rec_one_def rec_two_def rec_bad_def)
  note T = record_in_both_groups_is_processed_twice[OF h1 h2 h3 h4 h5 h6]
  from T have m: "rec_two \<in> set (tumor_sample_df ?df)" "rec_two \<in> set (normal_sample_df ?df)"
    by blast+
  from T q have r: "requested (run_site demo_env reversed ?df) =
     [request_url DATA_ENDPOINT ''f2'', request_url DATA_ENDPOINT ''f1'',
      request_url DATA_ENDPOINT ''f3'', request_url DATA_ENDPOINT ''f2'']"
    by simp
  from T have c: "2 \<le> count_list (requested (run_site demo_env reversed ?df))
         (request_url DATA_ENDPOINT (file_id rec_two))"
    by blast
  from h1 s m r c show ?thesis by (intro conjI)
qed

text \<open>
  Claim C10 as stated fails when the tumor run raises: the record \<open>rec_two\<close> is in both groups,
  and its file \<open>f2\<close> is requested once, in the tumor pool, and never for the normal group.
\<close>

theorem record_in_both_groups_fetched_once_counterexample:
  "rec_two \<in> set (tumor_sample_df [rec_one, rec_two, rec_bad]) \<and>
   rec_two \<in> set (normal_sample_df [rec_one, rec_two, rec_bad]) \<and>
   count_list (requested (run_site demo_env in_order [rec_one, rec_two, rec_bad]))
     (request_url DATA_ENDPOINT (file_id rec_two)) = 1"
  by (simp add: demo_groups site_run_aborts)
    (simp add: rec_two_def request_url_def DATA_ENDPOINT_def)

section \<open>Claims about the line reader\<close>










end
